theory Spec2Isabelle
  imports Complex_Main "HOL-Library.Word"
begin

section \<open>The product API of server.js\<close>

text \<open>
  The server keeps an array of product objects in memory and serves five routes over it.
  Each middleware and each handler of \<^verbatim>\<open>server.js\<close> is a function here; the array
  \<^verbatim>\<open>products\<close> is passed in and the new array is returned with the response.

  Conventions of the model:
  \<^item> a JavaScript string is the list of its UTF-16 code units (\<open>16 word list\<close>); the
    value of an HTTP header, which Node decodes byte by byte, is a \<open>string\<close> of 8-bit
    characters; the names of properties and the messages of the responses, which are
    constants of the program, are \<open>string\<close>s too;
  \<^item> \<^verbatim>\<open>String.prototype.toLowerCase\<close> follows the case mapping of the runtime, which is
    not part of the repository: every function that calls it takes it as its first
    argument \<open>toLowerCase\<close>, and every property below holds whatever that function is;
  \<^item> a number of a JSON body is its mathematical value (a \<open>real\<close>); the numbers of the
    pagination are doubles whose value is an integer, \<^verbatim>\<open>Infinity\<close>, \<^verbatim>\<open>-Infinity\<close> or
    \<^verbatim>\<open>NaN\<close>, with the rounding of \<^verbatim>\<open>parseInt\<close>, \<^verbatim>\<open>+\<close>, \<^verbatim>\<open>-\<close> and \<^verbatim>\<open>*\<close>
    written out (\<^verbatim>\<open>-0\<close> is not told from 0: no comparison of the program does);
  \<^item> \<^verbatim>\<open>undefined\<close> is \<open>None\<close>: a request body is a map from property names to JSON
    values, a query a map from parameter names to the values Express parses (a string,
    an array for a repeated parameter, an object for a bracketed one), a header a
    \<open>string option\<close>;
  \<^item> \<^verbatim>\<open>uuidv4()\<close> is a library call; the identifier it returns is an argument of the
    create route;
  \<^item> an exception thrown inside a handler's \<^verbatim>\<open>try\<close> block is the 500 response of its
    \<^verbatim>\<open>catch\<close> block;
  \<^item> the logging middleware writes to the console only and is left out.
\<close>

subsection \<open>Strings\<close>

type_synonym jsstring = "16 word list"

text \<open>The JavaScript string of a literal whose characters are below U+0100.\<close>

definition code_units :: "string \<Rightarrow> jsstring" where
  "code_units s = map of_char s"

text \<open>
  What \<^verbatim>\<open>toLowerCase\<close> does to a string of ASCII characters; the examples below take
  it for the runtime's function.
\<close>

definition ascii_toLowerCase :: "jsstring \<Rightarrow> jsstring" where
  "ascii_toLowerCase s = map (\<lambda>c. if 0x41 \<le> c \<and> c \<le> 0x5A then c + 0x20 else c) s"

text \<open>
  What the properties of the seed data need of the runtime's \<^verbatim>\<open>toLowerCase\<close>: on a
  string of ASCII characters it is \<open>ascii_toLowerCase\<close>.
\<close>

definition lower_cases_ascii :: "(jsstring \<Rightarrow> jsstring) \<Rightarrow> bool" where
  "lower_cases_ascii toLowerCase \<longleftrightarrow>
     (\<forall>s. list_all (\<lambda>c. c < 0x80) s \<longrightarrow> toLowerCase s = ascii_toLowerCase s)"

text \<open>
  The white space of ECMAScript (WhiteSpace and LineTerminator), which \<^verbatim>\<open>trim\<close> and
  \<^verbatim>\<open>parseInt\<close> strip: TAB, LF, VT, FF, CR, SP, NBSP, U+1680, U+2000 to U+200A, LS, PS,
  U+202F, U+205F, U+3000 and U+FEFF.
\<close>

definition is_whitespace :: "16 word \<Rightarrow> bool" where
  "is_whitespace c \<longleftrightarrow>
     c \<in> set [0x9, 0xA, 0xB, 0xC, 0xD, 0x20, 0xA0, 0x1680, 0x2028, 0x2029, 0x202F,
               0x205F, 0x3000, 0xFEFF] \<or>
     (0x2000 \<le> c \<and> c \<le> 0x200A)"

definition trim :: "jsstring \<Rightarrow> jsstring" where
  "trim s = rev (dropWhile is_whitespace (rev (dropWhile is_whitespace s)))"

text \<open>\<^verbatim>\<open>s.includes(t)\<close>: \<open>t\<close> occurs in \<open>s\<close> as a contiguous run of code units.\<close>

fun includes_str :: "'a list \<Rightarrow> 'a list \<Rightarrow> bool" where
  "includes_str [] t = (t = [])"
| "includes_str (c # cs) t = (take (length t) (c # cs) = t \<or> includes_str cs t)"

text \<open>\<^verbatim>\<open>s.split(' ')\<close>: the fields between single spaces; never the empty array.\<close>

fun split :: "string \<Rightarrow> string list" where
  "split [] = [[]]"
| "split (c # cs) =
     (if c = CHR '' '' then [] # split cs
      else (case split cs of [] \<Rightarrow> [[c]] | w # ws \<Rightarrow> (c # w) # ws))"

subsection \<open>JSON values and the JavaScript operators the server applies to them\<close>

datatype json =
    JNull
  | JBool bool
  | JNum real
  | JStr jsstring
  | JArr "json list"
  | JObj "(jsstring \<times> json) list"

type_synonym jsvalue = "json option"

datatype jstype = TUndefined | TObject | TBoolean | TNumber | TString

fun typeof :: "jsvalue \<Rightarrow> jstype" where
  "typeof None = TUndefined"
| "typeof (Some JNull) = TObject"
| "typeof (Some (JBool b)) = TBoolean"
| "typeof (Some (JNum x)) = TNumber"
| "typeof (Some (JStr s)) = TString"
| "typeof (Some (JArr xs)) = TObject"
| "typeof (Some (JObj kvs)) = TObject"

text \<open>\<^verbatim>\<open>!v\<close> is true for undefined, null, false, 0 and the empty string.\<close>

fun truthy :: "jsvalue \<Rightarrow> bool" where
  "truthy None = False"
| "truthy (Some JNull) = False"
| "truthy (Some (JBool b)) = b"
| "truthy (Some (JNum x)) = (x \<noteq> 0)"
| "truthy (Some (JStr s)) = (s \<noteq> [])"
| "truthy (Some (JArr xs)) = True"
| "truthy (Some (JObj kvs)) = True"

subsection \<open>Query parameters\<close>

text \<open>
  A value of \<^verbatim>\<open>req.query\<close>: a string, an array (\<^verbatim>\<open>?a=1&a=2\<close>) or an object
  (\<^verbatim>\<open>?a[k]=1\<close>).
\<close>

datatype qvalue =
    QStr jsstring
  | QArr "qvalue list"
  | QObj "(jsstring \<times> qvalue) list"

text \<open>\<^verbatim>\<open>if (v)\<close> on a parameter that is present: false for the empty string only.\<close>

fun q_truthy :: "qvalue \<Rightarrow> bool" where
  "q_truthy (QStr s) = (s \<noteq> [])"
| "q_truthy (QArr xs) = True"
| "q_truthy (QObj kvs) = True"

fun join_comma :: "jsstring list \<Rightarrow> jsstring" where
  "join_comma [] = []"
| "join_comma [s] = s"
| "join_comma (s # t # ts) = s @ 0x2C # join_comma (t # ts)"

text \<open>
  The string of a parameter, as \<^verbatim>\<open>parseInt\<close> takes it: an array is its elements joined
  by commas, an object is \<^verbatim>\<open>[object Object]\<close>.
\<close>

fun ToString :: "qvalue \<Rightarrow> jsstring" where
  "ToString (QStr s) = s"
| "ToString (QArr xs) = join_comma (map ToString xs)"
| "ToString (QObj kvs) = code_units ''[object Object]''"

subsection \<open>The numbers of the pagination\<close>

datatype jsnum = Finite int | PosInfinity | NegInfinity | NaN

text \<open>The number of binary digits of a positive integer.\<close>

function bit_length :: "int \<Rightarrow> nat" where
  "bit_length n = (if n \<le> 0 then 0 else Suc (bit_length (n div 2)))"
  by pat_completeness auto
termination
  by (relation "measure nat") auto

declare bit_length.simps [simp del]

text \<open>
  The double nearest to an integer: the integer itself below \<open>2^53\<close>; beyond, the 53
  leading bits, rounded to nearest with ties to even, and \<^verbatim>\<open>Infinity\<close> from \<open>2^1024\<close> on.
\<close>

definition to_double :: "int \<Rightarrow> jsnum" where
  "to_double n =
     (let a = \<bar>n\<bar>
      in if a < 2 ^ 53 then Finite n
         else
           (let e = bit_length a - 53;
                q = a div 2 ^ e;
                r = a mod 2 ^ e;
                h = 2 ^ (e - 1);
                q' = (if h < r \<or> (r = h \<and> odd q) then q + 1 else q);
                m = q' * 2 ^ e
            in if 2 ^ 1024 \<le> m then (if n < 0 then NegInfinity else PosInfinity)
               else Finite (if n < 0 then - m else m)))"


fun js_neg :: "jsnum \<Rightarrow> jsnum" where
  "js_neg (Finite a) = Finite (- a)"
| "js_neg PosInfinity = NegInfinity"
| "js_neg NegInfinity = PosInfinity"
| "js_neg NaN = NaN"

fun js_add :: "jsnum \<Rightarrow> jsnum \<Rightarrow> jsnum" where
  "js_add NaN y = NaN"
| "js_add x NaN = NaN"
| "js_add (Finite a) (Finite b) = to_double (a + b)"
| "js_add (Finite a) y = y"
| "js_add x (Finite b) = x"
| "js_add PosInfinity PosInfinity = PosInfinity"
| "js_add NegInfinity NegInfinity = NegInfinity"
| "js_add PosInfinity NegInfinity = NaN"
| "js_add NegInfinity PosInfinity = NaN"

definition js_sub :: "jsnum \<Rightarrow> jsnum \<Rightarrow> jsnum" where
  "js_sub x y = js_add x (js_neg y)"

text \<open>The sign of a product with an infinite factor; 0 times infinity is \<^verbatim>\<open>NaN\<close>.\<close>

definition signed_infinity :: "bool \<Rightarrow> jsnum" where
  "signed_infinity positive = (if positive then PosInfinity else NegInfinity)"

fun js_mul :: "jsnum \<Rightarrow> jsnum \<Rightarrow> jsnum" where
  "js_mul NaN y = NaN"
| "js_mul x NaN = NaN"
| "js_mul (Finite a) (Finite b) = to_double (a * b)"
| "js_mul (Finite a) PosInfinity = (if a = 0 then NaN else signed_infinity (0 < a))"
| "js_mul (Finite a) NegInfinity = (if a = 0 then NaN else signed_infinity (a < 0))"
| "js_mul PosInfinity (Finite b) = (if b = 0 then NaN else signed_infinity (0 < b))"
| "js_mul NegInfinity (Finite b) = (if b = 0 then NaN else signed_infinity (b < 0))"
| "js_mul PosInfinity PosInfinity = PosInfinity"
| "js_mul NegInfinity NegInfinity = PosInfinity"
| "js_mul PosInfinity NegInfinity = NegInfinity"
| "js_mul NegInfinity PosInfinity = NegInfinity"

fun js_less :: "jsnum \<Rightarrow> jsnum \<Rightarrow> bool" where
  "js_less NaN y = False"
| "js_less x NaN = False"
| "js_less (Finite a) (Finite b) = (a < b)"
| "js_less x NegInfinity = False"
| "js_less PosInfinity y = False"
| "js_less NegInfinity y = True"
| "js_less x PosInfinity = True"

text \<open>
  \<^verbatim>\<open>parseInt(x)\<close> with no radix: \<open>x\<close> as a string (\<^verbatim>\<open>"undefined"\<close> for a missing
  parameter), leading white space dropped, an optional sign, radix 16 after
  \<^verbatim>\<open>0x\<close> or \<^verbatim>\<open>0X\<close> and 10 otherwise, then the longest prefix of digits; \<^verbatim>\<open>NaN\<close>
  where that prefix is empty, and the double nearest to the signed value otherwise.
\<close>

definition digit_value :: "16 word \<Rightarrow> int option" where
  "digit_value c =
     (if 0x30 \<le> c \<and> c \<le> 0x39 then Some (uint c - 48)
      else if 0x61 \<le> c \<and> c \<le> 0x7A then Some (uint c - 87)
      else if 0x41 \<le> c \<and> c \<le> 0x5A then Some (uint c - 55)
      else None)"

definition is_digit :: "int \<Rightarrow> 16 word \<Rightarrow> bool" where
  "is_digit R c = (case digit_value c of None \<Rightarrow> False | Some d \<Rightarrow> d < R)"

definition digits_value :: "int \<Rightarrow> jsstring \<Rightarrow> int" where
  "digits_value R Z =
     foldl (\<lambda>acc c. acc * R + (case digit_value c of None \<Rightarrow> 0 | Some d \<Rightarrow> d)) 0 Z"

definition parseInt :: "qvalue option \<Rightarrow> jsnum" where
  "parseInt input =
     (let inputString = (case input of None \<Rightarrow> code_units ''undefined'' | Some v \<Rightarrow> ToString v);
          S = dropWhile is_whitespace inputString;
          sign = (if take 1 S = code_units ''-'' then - 1 else 1 :: int);
          S1 = (if take 1 S = code_units ''+'' \<or> take 1 S = code_units ''-'' then drop 1 S else S);
          hex = (take 2 S1 = code_units ''0x'' \<or> take 2 S1 = code_units ''0X'');
          R = (if hex then 16 else 10);
          S2 = (if hex then drop 2 S1 else S1);
          Z = takeWhile (is_digit R) S2
      in if Z = [] then NaN else to_double (sign * digits_value R Z))"

text \<open>\<^verbatim>\<open>v || d\<close> on a number: \<^verbatim>\<open>NaN\<close> and 0 are falsy.\<close>

definition or_default :: "jsnum \<Rightarrow> jsnum \<Rightarrow> jsnum" where
  "or_default v d = (if v = NaN \<or> v = Finite 0 then d else v)"

text \<open>
  \<^verbatim>\<open>xs.slice(start, end)\<close>: \<^verbatim>\<open>NaN\<close> counts as 0, a negative index counts from the end
  of the array, and both indices are clamped to the array.
\<close>

definition slice_index :: "nat \<Rightarrow> jsnum \<Rightarrow> int" where
  "slice_index len i =
     (case i of
        NaN \<Rightarrow> 0
      | NegInfinity \<Rightarrow> 0
      | PosInfinity \<Rightarrow> int len
      | Finite n \<Rightarrow> if n < 0 then max (int len + n) 0 else min n (int len))"

definition slice :: "'a list \<Rightarrow> jsnum \<Rightarrow> jsnum \<Rightarrow> 'a list" where
  "slice xs start finish =
     (let k = slice_index (length xs) start;
          final = slice_index (length xs) finish
      in take (nat (final - k)) (drop (nat k) xs))"

subsection \<open>Products, responses\<close>

record product =
  pid :: jsstring
  name :: jsstring
  description :: json
  price :: real
  category :: jsstring
  inStock :: json

record page_link =
  link_page :: jsnum
  link_limit :: jsnum

record listing =
  result_next :: "page_link option"
  result_previous :: "page_link option"
  result_products :: "product list"
  result_total :: nat
  result_page :: jsnum
  result_limit :: jsnum

datatype resp_body =
    Error string
  | Product product
  | Deleted string product
  | Listing listing

datatype response = Response (status: nat) (body: resp_body)

text \<open>\<^verbatim>\<open>res.json(x)\<close> without \<^verbatim>\<open>res.status\<close> answers 200.\<close>

definition json_ok :: "resp_body \<Rightarrow> response" where
  "json_ok b = Response 200 b"

type_synonym store = "product list"
type_synonym payload = "string \<rightharpoonup> json"
type_synonym query = "string \<rightharpoonup> qvalue"

text \<open>The seed data: the initial value of the variable \<^verbatim>\<open>products\<close>.\<close>

definition products :: store where
  "products =
     [\<lparr>pid = code_units ''1'', name = code_units ''Laptop'',
       description = JStr (code_units ''High-performance laptop with 16GB RAM''),
       price = 1200, category = code_units ''electronics'', inStock = JBool True\<rparr>,
      \<lparr>pid = code_units ''2'', name = code_units ''Smartphone'',
       description = JStr (code_units ''Latest model with 128GB storage''),
       price = 800, category = code_units ''electronics'', inStock = JBool True\<rparr>,
      \<lparr>pid = code_units ''3'', name = code_units ''Coffee Maker'',
       description = JStr (code_units ''Programmable coffee maker with timer''),
       price = 50, category = code_units ''kitchen'', inStock = JBool False\<rparr>]"

subsection \<open>The middlewares\<close>

text \<open>
  A middleware returns \<open>None\<close> where the source calls \<^verbatim>\<open>next()\<close> and the response it
  sends otherwise.
\<close>

text \<open>\<^verbatim>\<open>h.split(' ')[1]\<close>, \<open>None\<close> where the array has one element only.\<close>

definition second_field :: "string \<Rightarrow> string option" where
  "second_field h = (case split h of _ # t # _ \<Rightarrow> Some t | _ \<Rightarrow> None)"

text \<open>
  \<^verbatim>\<open>authHeader && authHeader.split(' ')[1]\<close> is \<^verbatim>\<open>authHeader\<close> itself where that is
  undefined or the empty string.
\<close>

definition authMiddleware :: "string option \<Rightarrow> response option" where
  "authMiddleware authHeader =
     (let token = (case authHeader of
                     None \<Rightarrow> None
                   | Some h \<Rightarrow> if h = [] then Some [] else second_field h)
      in if token = Some ''secret-token'' then None
         else Some (Response 401 (Error ''Unauthorized: Invalid or missing token'')))"

text \<open>
  The three tests of \<^verbatim>\<open>validateProduct\<close>, each a chain of \<^verbatim>\<open>||\<close>: the right operand
  is evaluated only where the left one is false, so \<^verbatim>\<open>trim\<close> is applied to strings only.
\<close>

definition string_rejected :: "jsvalue \<Rightarrow> bool" where
  "string_rejected v =
     (\<not> truthy v \<or> typeof v \<noteq> TString \<or>
      (case v of Some (JStr s) \<Rightarrow> trim s = [] | _ \<Rightarrow> True))"

definition price_rejected :: "jsvalue \<Rightarrow> bool" where
  "price_rejected v =
     (v = None \<or> typeof v \<noteq> TNumber \<or>
      (case v of Some (JNum x) \<Rightarrow> x < 0 | _ \<Rightarrow> True))"

definition validateProduct :: "payload \<Rightarrow> response option" where
  "validateProduct reqBody =
     (if string_rejected (reqBody ''name'') then
        Some (Response 400 (Error ''Name is required and must be a non-empty string''))
      else if price_rejected (reqBody ''price'') then
        Some (Response 400 (Error ''Price is required and must be a non-negative number''))
      else if string_rejected (reqBody ''category'') then
        Some (Response 400 (Error ''Category is required and must be a non-empty string''))
      else None)"

subsection \<open>Listing\<close>

text \<open>
  The callback of the search filter. \<^verbatim>\<open>search.toLowerCase()\<close> throws a TypeError
  (\<open>None\<close>) on a search parameter that is not a string, and
  \<^verbatim>\<open>product.description.toLowerCase()\<close>, which is read only where the name does not
  match, on a description that is not a string.
\<close>

definition search_matches ::
  "(jsstring \<Rightarrow> jsstring) \<Rightarrow> qvalue \<Rightarrow> product \<Rightarrow> bool option" where
  "search_matches toLowerCase search p =
     (case search of
        QStr s \<Rightarrow>
          if includes_str (toLowerCase (name p)) (toLowerCase s) then Some True
          else (case description p of
                  JStr d \<Rightarrow> Some (includes_str (toLowerCase d) (toLowerCase s))
                | _ \<Rightarrow> None)
      | _ \<Rightarrow> None)"

text \<open>\<^verbatim>\<open>filter\<close> with a callback that may throw: the first exception ends it.\<close>

fun search_filter ::
  "(jsstring \<Rightarrow> jsstring) \<Rightarrow> qvalue \<Rightarrow> product list \<Rightarrow> product list option" where
  "search_filter toLowerCase search [] = Some []"
| "search_filter toLowerCase search (p # ps) =
     (case search_matches toLowerCase search p of
        None \<Rightarrow> None
      | Some keep \<Rightarrow>
          (case search_filter toLowerCase search ps of
             None \<Rightarrow> None
           | Some r \<Rightarrow> Some (if keep then p # r else r)))"

text \<open>
  The category filter: its callback throws on a category parameter that is not a string,
  so the filter does wherever it has a product to test.
\<close>

definition category_filter ::
  "(jsstring \<Rightarrow> jsstring) \<Rightarrow> qvalue \<Rightarrow> product list \<Rightarrow> product list option" where
  "category_filter toLowerCase category' fs =
     (case category' of
        QStr c \<Rightarrow> Some (filter (\<lambda>p. toLowerCase (category p) = toLowerCase c) fs)
      | _ \<Rightarrow> if fs = [] then Some [] else None)"

text \<open>
  \<^verbatim>\<open>filteredProducts\<close> after the three filters. \<^verbatim>\<open>if (search)\<close> and
  \<^verbatim>\<open>if (category)\<close> skip the empty string; \<^verbatim>\<open>inStock !== undefined\<close> does not, and
  \<^verbatim>\<open>inStock === 'true'\<close> holds of that string only.
\<close>

definition filteredProducts ::
  "(jsstring \<Rightarrow> jsstring) \<Rightarrow> store \<Rightarrow> query \<Rightarrow> product list option" where
  "filteredProducts toLowerCase ps q =
     (case (case q ''search'' of
              None \<Rightarrow> Some ps
            | Some search \<Rightarrow>
                if q_truthy search then search_filter toLowerCase search ps else Some ps) of
        None \<Rightarrow> None
      | Some f1 \<Rightarrow>
          (case (case q ''category'' of
                   None \<Rightarrow> Some f1
                 | Some category' \<Rightarrow>
                     if q_truthy category' then category_filter toLowerCase category' f1
                     else Some f1) of
             None \<Rightarrow> None
           | Some f2 \<Rightarrow>
               (case q ''inStock'' of
                  None \<Rightarrow> Some f2
                | Some inStock' \<Rightarrow>
                    (let stockValue = (inStock' = QStr (code_units ''true''))
                     in Some (filter (\<lambda>p. inStock p = JBool stockValue) f2)))))"

text \<open>The pagination block of the handler, from \<^verbatim>\<open>page\<close> and \<^verbatim>\<open>limit\<close> on.\<close>

definition paginate :: "product list \<Rightarrow> jsnum \<Rightarrow> jsnum \<Rightarrow> listing" where
  "paginate fs page limit =
     (let startIndex = js_mul (js_sub page (Finite 1)) limit;
          endIndex = js_mul page limit
      in \<lparr>result_next =
            (if js_less endIndex (Finite (int (length fs)))
             then Some \<lparr>link_page = js_add page (Finite 1), link_limit = limit\<rparr> else None),
          result_previous =
            (if js_less (Finite 0) startIndex
             then Some \<lparr>link_page = js_sub page (Finite 1), link_limit = limit\<rparr> else None),
          result_products = slice fs startIndex endIndex,
          result_total = length fs,
          result_page = page,
          result_limit = limit\<rparr>)"

text \<open>\<^verbatim>\<open>GET /api/products\<close>\<close>

definition GET_products :: "(jsstring \<Rightarrow> jsstring) \<Rightarrow> store \<Rightarrow> query \<Rightarrow> response" where
  "GET_products toLowerCase ps q =
     (case filteredProducts toLowerCase ps q of
        None \<Rightarrow> Response 500 (Error ''Failed to retrieve products'')
      | Some fs \<Rightarrow>
          (let page = or_default (parseInt (q ''page'')) (Finite 1);
               limit = or_default (parseInt (q ''limit'')) (Finite 10)
           in json_ok (Listing (paginate fs page limit))))"

subsection \<open>Reading and changing the store\<close>

text \<open>\<^verbatim>\<open>xs.findIndex(f)\<close>, with \<open>None\<close> for the result -1.\<close>

fun findIndex :: "('a \<Rightarrow> bool) \<Rightarrow> 'a list \<Rightarrow> nat option" where
  "findIndex f [] = None"
| "findIndex f (x # xs) =
     (if f x then Some 0 else map_option Suc (findIndex f xs))"

text \<open>\<^verbatim>\<open>GET /api/products/:id\<close>\<close>

definition GET_product :: "store \<Rightarrow> jsstring \<Rightarrow> response" where
  "GET_product ps productId =
     (case find (\<lambda>p. pid p = productId) ps of
        None \<Rightarrow> Response 404 (Error ''Product not found'')
      | Some p \<Rightarrow> json_ok (Product p))"

text \<open>\<^verbatim>\<open>v || ''\<close>: the empty string for a falsy \<open>v\<close>, and \<open>v\<close> otherwise.\<close>

definition or_empty :: "jsvalue \<Rightarrow> json" where
  "or_empty v = (case v of None \<Rightarrow> JStr [] | Some d \<Rightarrow> if truthy v then d else JStr [])"

text \<open>
  The handler of \<^verbatim>\<open>POST /api/products\<close>. It runs behind \<^verbatim>\<open>validateProduct\<close>, so it
  takes \<^verbatim>\<open>name\<close>, \<^verbatim>\<open>price\<close> and \<^verbatim>\<open>category\<close> at the types validation has
  established; \<^verbatim>\<open>description\<close> and \<^verbatim>\<open>inStock\<close> are whatever the body holds.
  \<open>uuid\<close> is the result of \<^verbatim>\<open>uuidv4()\<close>.
\<close>

definition create_handler ::
  "(jsstring \<Rightarrow> jsstring) \<Rightarrow> store \<Rightarrow> jsstring \<Rightarrow> jsstring \<Rightarrow> jsvalue \<Rightarrow> real \<Rightarrow> jsstring \<Rightarrow>
     jsvalue \<Rightarrow> response \<times> store" where
  "create_handler toLowerCase ps uuid name' description' price' category' inStock' =
     (case find (\<lambda>p. toLowerCase (name p) = toLowerCase name') ps of
        Some existingProduct \<Rightarrow>
          (Response 409 (Error ''Product with this name already exists''), ps)
      | None \<Rightarrow>
          (let newProduct =
                 \<lparr>pid = uuid,
                  name = name',
                  description = or_empty description',
                  price = price',
                  category = category',
                  inStock = (case inStock' of None \<Rightarrow> JBool True | Some v \<Rightarrow> v)\<rparr>
           in (Response 201 (Product newProduct), ps @ [newProduct])))"

text \<open>The handler of \<^verbatim>\<open>PUT /api/products/:id\<close>, behind \<^verbatim>\<open>validateProduct\<close> likewise.\<close>

definition update_handler ::
  "(jsstring \<Rightarrow> jsstring) \<Rightarrow> store \<Rightarrow> jsstring \<Rightarrow> jsstring \<Rightarrow> jsvalue \<Rightarrow> real \<Rightarrow> jsstring \<Rightarrow>
     jsvalue \<Rightarrow> response \<times> store" where
  "update_handler toLowerCase ps productId name' description' price' category' inStock' =
     (case findIndex (\<lambda>p. pid p = productId) ps of
        None \<Rightarrow> (Response 404 (Error ''Product not found''), ps)
      | Some productIndex \<Rightarrow>
          (case find (\<lambda>p. toLowerCase (name p) = toLowerCase name' \<and> pid p \<noteq> productId) ps of
             Some existingProduct \<Rightarrow>
               (Response 409 (Error ''Product with this name already exists''), ps)
           | None \<Rightarrow>
               (let updatedProduct =
                      \<lparr>pid = productId,
                       name = name',
                       description = or_empty description',
                       price = price',
                       category = category',
                       inStock =
                         (case inStock' of
                            None \<Rightarrow> inStock (ps ! productIndex)
                          | Some v \<Rightarrow> v)\<rparr>
                in (json_ok (Product updatedProduct), ps[productIndex := updatedProduct]))))"

text \<open>
  The handler of \<^verbatim>\<open>DELETE /api/products/:id\<close>; \<^verbatim>\<open>splice(productIndex, 1)\<close> removes
  the element at that index and returns it.
\<close>

definition delete_handler :: "store \<Rightarrow> jsstring \<Rightarrow> response \<times> store" where
  "delete_handler ps productId =
     (case findIndex (\<lambda>p. pid p = productId) ps of
        None \<Rightarrow> (Response 404 (Error ''Product not found''), ps)
      | Some productIndex \<Rightarrow>
          (let deletedProduct = ps ! productIndex
           in (json_ok (Deleted ''Product deleted successfully'' deletedProduct),
               take productIndex ps @ drop (Suc productIndex) ps)))"

subsection \<open>The routes: middlewares, then the handler\<close>

text \<open>
  A route runs its middlewares in order and stops at the first that answers. Once
  \<^verbatim>\<open>validateProduct\<close> has passed, \<^verbatim>\<open>name\<close> and \<^verbatim>\<open>category\<close> are strings and
  \<^verbatim>\<open>price\<close> is a number (lemma \<open>validateProduct_passes\<close> below), so the last case of
  \<open>validated\<close> is never taken.
\<close>

definition validated ::
  "payload \<Rightarrow> (jsstring \<Rightarrow> real \<Rightarrow> jsstring \<Rightarrow> response \<times> store) \<Rightarrow> response \<times> store \<Rightarrow>
     response \<times> store" where
  "validated reqBody handler unreachable =
     (case (reqBody ''name'', reqBody ''price'', reqBody ''category'') of
        (Some (JStr n), Some (JNum x), Some (JStr c)) \<Rightarrow> handler n x c
      | _ \<Rightarrow> unreachable)"

definition POST_products ::
  "(jsstring \<Rightarrow> jsstring) \<Rightarrow> store \<Rightarrow> jsstring \<Rightarrow> string option \<Rightarrow> payload \<Rightarrow> response \<times> store" where
  "POST_products toLowerCase ps uuid authHeader reqBody =
     (case authMiddleware authHeader of
        Some r \<Rightarrow> (r, ps)
      | None \<Rightarrow>
          (case validateProduct reqBody of
             Some r \<Rightarrow> (r, ps)
           | None \<Rightarrow>
               validated reqBody
                 (\<lambda>n x c. create_handler toLowerCase ps uuid n (reqBody ''description'') x c
                            (reqBody ''inStock''))
                 (Response 500 (Error ''Failed to create product''), ps)))"

definition PUT_product ::
  "(jsstring \<Rightarrow> jsstring) \<Rightarrow> store \<Rightarrow> jsstring \<Rightarrow> string option \<Rightarrow> payload \<Rightarrow> response \<times> store" where
  "PUT_product toLowerCase ps productId authHeader reqBody =
     (case authMiddleware authHeader of
        Some r \<Rightarrow> (r, ps)
      | None \<Rightarrow>
          (case validateProduct reqBody of
             Some r \<Rightarrow> (r, ps)
           | None \<Rightarrow>
               validated reqBody
                 (\<lambda>n x c. update_handler toLowerCase ps productId n (reqBody ''description'') x c
                            (reqBody ''inStock''))
                 (Response 500 (Error ''Failed to update product''), ps)))"

definition DELETE_product :: "store \<Rightarrow> jsstring \<Rightarrow> string option \<Rightarrow> response \<times> store" where
  "DELETE_product ps productId authHeader =
     (case authMiddleware authHeader of
        Some r \<Rightarrow> (r, ps)
      | None \<Rightarrow> delete_handler ps productId)"

subsection \<open>The states the server can be in\<close>

text \<open>
  The store starts as the seed data and changes through the three mutating routes only,
  whatever header, body and path each request carries. \<^verbatim>\<open>uuidv4()\<close> returns an
  identifier no product of the store carries.
\<close>

inductive reachable :: "(jsstring \<Rightarrow> jsstring) \<Rightarrow> store \<Rightarrow> bool"
  for toLowerCase :: "jsstring \<Rightarrow> jsstring" where
  seed: "reachable toLowerCase products"
| create: "reachable toLowerCase ps \<Longrightarrow> uuid \<notin> pid ` set ps \<Longrightarrow>
     POST_products toLowerCase ps uuid authHeader reqBody = (r, ps') \<Longrightarrow>
     reachable toLowerCase ps'"
| update: "reachable toLowerCase ps \<Longrightarrow>
     PUT_product toLowerCase ps productId authHeader reqBody = (r, ps') \<Longrightarrow>
     reachable toLowerCase ps'"
| delete: "reachable toLowerCase ps \<Longrightarrow>
     DELETE_product ps productId authHeader = (r, ps') \<Longrightarrow> reachable toLowerCase ps'"

text \<open>
  What the handlers keep true of the store: ids are pairwise distinct, and so are the
  lower-cased names.
\<close>

definition invariant :: "(jsstring \<Rightarrow> jsstring) \<Rightarrow> store \<Rightarrow> bool" where
  "invariant toLowerCase ps \<longleftrightarrow>
     distinct (map pid ps) \<and> distinct (map (\<lambda>p. toLowerCase (name p)) ps)"

subsection \<open>The specification's wording, for comparison with the code\<close>

text \<open>A field that is present, a string, and non-empty after trimming.\<close>

definition spec_string_ok :: "jsvalue \<Rightarrow> bool" where
  "spec_string_ok v = (case v of Some (JStr s) \<Rightarrow> trim s \<noteq> [] | _ \<Rightarrow> False)"

text \<open>A field that is present, a number, and at least 0.\<close>

definition spec_price_ok :: "jsvalue \<Rightarrow> bool" where
  "spec_price_ok v = (case v of Some (JNum x) \<Rightarrow> 0 \<le> x | _ \<Rightarrow> False)"

text \<open>The token of a header of the form \<^verbatim>\<open>Bearer <token>\<close>.\<close>

definition spec_bearer_token :: "string \<Rightarrow> string option" where
  "spec_bearer_token h = (if take 7 h = ''Bearer '' then Some (drop 7 h) else None)"

text \<open>
  The header is absent, is not of the form \<^verbatim>\<open>Bearer <token>\<close>, or carries a token
  other than the secret.
\<close>

definition spec_auth_rejects :: "string option \<Rightarrow> bool" where
  "spec_auth_rejects authHeader =
     (case authHeader of
        None \<Rightarrow> True
      | Some h \<Rightarrow>
          (case spec_bearer_token h of
             None \<Rightarrow> True
           | Some t \<Rightarrow> t \<noteq> ''secret-token''))"



text \<open>
  The integers below \<open>2^53\<close> in absolute value: doubles hold them exactly, and a sum,
  difference or product whose result is one of them is computed without rounding.
\<close>

definition safe_integer :: "int \<Rightarrow> bool" where
  "safe_integer n \<longleftrightarrow> \<bar>n\<bar> < 2 ^ 53"

section \<open>Properties\<close>

subsection \<open>Validation\<close>

lemma trim_Nil: "trim [] = []"
  by (simp add: trim_def)

lemma string_rejected_iff: "string_rejected v \<longleftrightarrow> \<not> spec_string_ok v"
proof (cases v)
  case None
  then show ?thesis by (simp add: string_rejected_def spec_string_ok_def)
next
  case (Some j)
  then show ?thesis
    by (cases j) (auto simp: string_rejected_def spec_string_ok_def trim_Nil)
qed

lemma price_rejected_iff: "price_rejected v \<longleftrightarrow> \<not> spec_price_ok v"
proof (cases v)
  case None
  then show ?thesis by (simp add: price_rejected_def spec_price_ok_def)
next
  case (Some j)
  then show ?thesis
    by (cases j) (auto simp: price_rejected_def spec_price_ok_def)
qed

lemma spec_string_okD: "spec_string_ok v \<Longrightarrow> \<exists>s. v = Some (JStr s) \<and> trim s \<noteq> []"
  by (auto simp: spec_string_ok_def split: option.splits json.splits)

lemma spec_price_okD: "spec_price_ok v \<Longrightarrow> \<exists>x. v = Some (JNum x) \<and> 0 \<le> x"
  by (auto simp: spec_price_ok_def split: option.splits json.splits)

lemma validateProduct_chain:
  "validateProduct b =
     (if \<not> spec_string_ok (b ''name'') then
        Some (Response 400 (Error ''Name is required and must be a non-empty string''))
      else if \<not> spec_price_ok (b ''price'') then
        Some (Response 400 (Error ''Price is required and must be a non-negative number''))
      else if \<not> spec_string_ok (b ''category'') then
        Some (Response 400 (Error ''Category is required and must be a non-empty string''))
      else None)"
  by (simp add: validateProduct_def string_rejected_iff price_rejected_iff)

lemma validateProduct_passes:
  assumes "validateProduct b = None"
  shows "\<exists>n x c. b ''name'' = Some (JStr n) \<and> b ''price'' = Some (JNum x) \<and>
           b ''category'' = Some (JStr c) \<and> trim n \<noteq> [] \<and> 0 \<le> x \<and> trim c \<noteq> []"
proof -
  from assms have "spec_string_ok (b ''name'')" "spec_price_ok (b ''price'')"
    "spec_string_ok (b ''category'')"
    by (auto simp: validateProduct_chain split: if_splits)
  then show ?thesis
    by (auto dest!: spec_string_okD spec_price_okD)
qed

lemma validateProduct_status:
  "validateProduct b = Some r \<Longrightarrow> status r = 400"
  by (auto simp: validateProduct_def split: if_splits)

lemma validated_eq:
  "b ''name'' = Some (JStr n) \<Longrightarrow> b ''price'' = Some (JNum x) \<Longrightarrow>
   b ''category'' = Some (JStr c) \<Longrightarrow> validated b h u = h n x c"
  by (simp add: validated_def)

lemma authMiddleware_Bearer: "authMiddleware (Some ''Bearer secret-token'') = None"
  by (simp add: authMiddleware_def second_field_def)

text \<open>Behind both middlewares a mutating route is its handler, applied to the body's own values.\<close>

lemma POST_products_passed:
  assumes "authMiddleware hdr = None" and "validateProduct b = None"
  shows "\<exists>n x c. b ''name'' = Some (JStr n) \<and> b ''price'' = Some (JNum x) \<and>
           b ''category'' = Some (JStr c) \<and>
           POST_products toLowerCase ps uuid hdr b =
             create_handler toLowerCase ps uuid n (b ''description'') x c (b ''inStock'')"
  using validateProduct_passes [OF assms(2)] assms
  by (auto simp: POST_products_def validated_eq)

lemma PUT_product_passed:
  assumes "authMiddleware hdr = None" and "validateProduct b = None"
  shows "\<exists>n x c. b ''name'' = Some (JStr n) \<and> b ''price'' = Some (JNum x) \<and>
           b ''category'' = Some (JStr c) \<and>
           PUT_product toLowerCase ps productId hdr b =
             update_handler toLowerCase ps productId n (b ''description'') x c (b ''inStock'')"
  using validateProduct_passes [OF assms(2)] assms
  by (auto simp: PUT_product_def validated_eq)

lemma create_handler_status:
  "create_handler toLowerCase ps uuid n d x c st = (r, ps') \<Longrightarrow> status r = 409 \<or> status r = 201"
  by (auto simp: create_handler_def Let_def split: option.splits)

lemma update_handler_status:
  "update_handler toLowerCase ps productId n d x c st = (r, ps') \<Longrightarrow>
     status r = 404 \<or> status r = 409 \<or> status r = 200"
  by (auto simp: update_handler_def Let_def json_ok_def split: option.splits)

lemma delete_handler_status:
  "delete_handler ps productId = (r, ps') \<Longrightarrow> status r = 404 \<or> status r = 200"
  by (auto simp: delete_handler_def Let_def json_ok_def split: option.splits)

lemma authMiddleware_status:
  "authMiddleware hdr = Some r \<Longrightarrow>
     r = Response 401 (Error ''Unauthorized: Invalid or missing token'')"
  by (auto simp: authMiddleware_def Let_def split: if_splits)

text \<open>A string is empty after trimming exactly where all its characters are white space.\<close>

lemma trim_empty_iff: "trim s = [] \<longleftrightarrow> (\<forall>c\<in>set s. is_whitespace c)"
proof
  assume "trim s = []"
  then have "dropWhile is_whitespace (rev (dropWhile is_whitespace s)) = []"
    by (simp add: trim_def)
  then have a: "\<forall>c\<in>set (dropWhile is_whitespace s). is_whitespace c"
    by (simp add: dropWhile_eq_Nil_conv)
  have "dropWhile is_whitespace s = []"
  proof (rule ccontr)
    assume n: "dropWhile is_whitespace s \<noteq> []"
    then have "\<not> is_whitespace (hd (dropWhile is_whitespace s))"
      by (rule hd_dropWhile)
    moreover from n have "hd (dropWhile is_whitespace s) \<in> set (dropWhile is_whitespace s)"
      by simp
    ultimately show False using a by blast
  qed
  then show "\<forall>c\<in>set s. is_whitespace c"
    by (simp add: dropWhile_eq_Nil_conv)
next
  assume "\<forall>c\<in>set s. is_whitespace c"
  then have d: "dropWhile is_whitespace s = []"
    by (simp add: dropWhile_eq_Nil_conv)
  show "trim s = []"
    unfolding trim_def d by simp
qed

lemma spec_string_ok_iff:
  "spec_string_ok v \<longleftrightarrow> (\<exists>s. v = Some (JStr s) \<and> (\<exists>c\<in>set s. \<not> is_whitespace c))"
proof (cases v)
  case None
  then show ?thesis by (simp add: spec_string_ok_def)
next
  case (Some j)
  then show ?thesis
    by (cases j) (auto simp: spec_string_ok_def trim_empty_iff)
qed

lemma spec_price_ok_iff:
  "spec_price_ok v \<longleftrightarrow> (\<exists>x. v = Some (JNum x) \<and> 0 \<le> x)"
proof (cases v)
  case None
  then show ?thesis by (simp add: spec_price_ok_def)
next
  case (Some j)
  then show ?thesis
    by (cases j) (auto simp: spec_price_ok_def)
qed

text \<open>
  C6. Validation tests name, then price, then category. The name and the category must be
  present and strings that are not empty after trimming, that is, that hold a character
  that is not white space; the price must be present and a number that is at least 0.
  The first test that fails answers 400 with the message of its field; a body that passes
  all three reaches the handler of the route as it is.
\<close>

theorem validateProduct_checks_in_order:
  "validateProduct b =
     (if \<not> spec_string_ok (b ''name'') then
        Some (Response 400 (Error ''Name is required and must be a non-empty string''))
      else if \<not> spec_price_ok (b ''price'') then
        Some (Response 400 (Error ''Price is required and must be a non-negative number''))
      else if \<not> spec_string_ok (b ''category'') then
        Some (Response 400 (Error ''Category is required and must be a non-empty string''))
      else None) \<and>
   (authMiddleware hdr = None \<and> validateProduct b = None \<longrightarrow>
      (\<exists>n x c. b ''name'' = Some (JStr n) \<and> b ''price'' = Some (JNum x) \<and>
         b ''category'' = Some (JStr c) \<and>
         POST_products toLowerCase ps uuid hdr b =
           create_handler toLowerCase ps uuid n (b ''description'') x c (b ''inStock'') \<and>
         PUT_product toLowerCase ps productId hdr b =
           update_handler toLowerCase ps productId n (b ''description'') x c (b ''inStock''))) \<and>
   (spec_string_ok v \<longleftrightarrow>
      (\<exists>s. v = Some (JStr s) \<and> (\<exists>c\<in>set s. \<not> is_whitespace c))) \<and>
   (spec_price_ok v \<longleftrightarrow> (\<exists>x. v = Some (JNum x) \<and> 0 \<le> x))"
proof (intro conjI impI)
  show "spec_string_ok v \<longleftrightarrow>
      (\<exists>s. v = Some (JStr s) \<and> (\<exists>c\<in>set s. \<not> is_whitespace c))"
    by (rule spec_string_ok_iff)
  show "spec_price_ok v \<longleftrightarrow> (\<exists>x. v = Some (JNum x) \<and> 0 \<le> x)"
    by (rule spec_price_ok_iff)
next
  show "validateProduct b =
     (if \<not> spec_string_ok (b ''name'') then
        Some (Response 400 (Error ''Name is required and must be a non-empty string''))
      else if \<not> spec_price_ok (b ''price'') then
        Some (Response 400 (Error ''Price is required and must be a non-negative number''))
      else if \<not> spec_string_ok (b ''category'') then
        Some (Response 400 (Error ''Category is required and must be a non-empty string''))
      else None)"
    by (rule validateProduct_chain)
next
  assume a: "authMiddleware hdr = None \<and> validateProduct b = None"
  then obtain n x c where f: "b ''name'' = Some (JStr n)" "b ''price'' = Some (JNum x)"
    "b ''category'' = Some (JStr c)"
    using validateProduct_passes by blast
  with a have "POST_products toLowerCase ps uuid hdr b =
      create_handler toLowerCase ps uuid n (b ''description'') x c (b ''inStock'')"
    "PUT_product toLowerCase ps productId hdr b =
      update_handler toLowerCase ps productId n (b ''description'') x c (b ''inStock'')"
    by (simp_all add: POST_products_def PUT_product_def validated_eq)
  with f show "\<exists>n x c. b ''name'' = Some (JStr n) \<and> b ''price'' = Some (JNum x) \<and>
         b ''category'' = Some (JStr c) \<and>
         POST_products toLowerCase ps uuid hdr b =
           create_handler toLowerCase ps uuid n (b ''description'') x c (b ''inStock'') \<and>
         PUT_product toLowerCase ps productId hdr b =
           update_handler toLowerCase ps productId n (b ''description'') x c (b ''inStock'')"
    by blast
qed

theorem validateProduct_checks_in_order_witness:
  "validateProduct [''name'' \<mapsto> JStr (code_units '' ''), ''price'' \<mapsto> JNum (- 5)] =
     Some (Response 400 (Error ''Name is required and must be a non-empty string'')) \<and>
   validateProduct [''name'' \<mapsto> JStr [0xA0, 0x2003], ''price'' \<mapsto> JNum 5,
       ''category'' \<mapsto> JStr (code_units ''kitchen'')] =
     Some (Response 400 (Error ''Name is required and must be a non-empty string'')) \<and>
   validateProduct [''name'' \<mapsto> JStr (code_units ''Mug''), ''price'' \<mapsto> JNum (- 5)] =
     Some (Response 400 (Error ''Price is required and must be a non-negative number'')) \<and>
   validateProduct [''name'' \<mapsto> JStr (code_units ''Mug''), ''price'' \<mapsto> JNum 5,
       ''category'' \<mapsto> JNum 7] =
     Some (Response 400 (Error ''Category is required and must be a non-empty string'')) \<and>
   validateProduct [''name'' \<mapsto> JStr (code_units ''Mug''), ''price'' \<mapsto> JNum 0,
       ''category'' \<mapsto> JStr (code_units ''kitchen'')] = None \<and>
   POST_products ascii_toLowerCase products (code_units ''u'') (Some ''Bearer secret-token'')
     [''name'' \<mapsto> JStr (code_units ''Mug''), ''price'' \<mapsto> JNum 0,
      ''category'' \<mapsto> JStr (code_units ''kitchen'')] =
     create_handler ascii_toLowerCase products (code_units ''u'') (code_units ''Mug'') None 0
       (code_units ''kitchen'') None"
  using validateProduct_checks_in_order
      [of "[''name'' \<mapsto> JStr (code_units '' ''), ''price'' \<mapsto> JNum (- 5)]" None]
    validateProduct_checks_in_order
      [of "[''name'' \<mapsto> JStr [0xA0, 0x2003], ''price'' \<mapsto> JNum 5,
            ''category'' \<mapsto> JStr (code_units ''kitchen'')]" None]
    validateProduct_checks_in_order
      [of "[''name'' \<mapsto> JStr (code_units ''Mug''), ''price'' \<mapsto> JNum (- 5)]" None]
    validateProduct_checks_in_order
      [of "[''name'' \<mapsto> JStr (code_units ''Mug''), ''price'' \<mapsto> JNum 5,
            ''category'' \<mapsto> JNum 7]" None]
    validateProduct_checks_in_order
      [of "[''name'' \<mapsto> JStr (code_units ''Mug''), ''price'' \<mapsto> JNum 0,
            ''category'' \<mapsto> JStr (code_units ''kitchen'')]"
          "Some ''Bearer secret-token''" ascii_toLowerCase products "code_units ''u''"]
  by (simp add: spec_string_ok_def spec_price_ok_def trim_def code_units_def is_whitespace_def
      authMiddleware_Bearer)

subsection \<open>Authentication\<close>

lemma split_fields:
  "split s = takeWhile (\<lambda>c. c \<noteq> CHR '' '') s #
     (case dropWhile (\<lambda>c. c \<noteq> CHR '' '') s of [] \<Rightarrow> [] | _ # r \<Rightarrow> split r)"
  by (induction s) (auto split: list.splits)

lemma split_hd: "\<exists>ws. split r = takeWhile (\<lambda>c. c \<noteq> CHR '' '') r # ws"
  using split_fields [of r] by blast

lemma second_field_eq:
  "second_field h =
     (case dropWhile (\<lambda>c. c \<noteq> CHR '' '') h of
        [] \<Rightarrow> None
      | _ # r \<Rightarrow> Some (takeWhile (\<lambda>c. c \<noteq> CHR '' '') r))"
proof (cases "dropWhile (\<lambda>c. c \<noteq> CHR '' '') h")
  case Nil
  show ?thesis
    unfolding second_field_def by (subst split_fields) (simp add: Nil)
next
  case (Cons c r)
  obtain ws where "split r = takeWhile (\<lambda>c. c \<noteq> CHR '' '') r # ws"
    using split_hd by blast
  then show ?thesis
    unfolding second_field_def by (subst split_fields) (simp add: Cons)
qed

text \<open>
  The second field is \<open>t\<close> exactly where the header is a first field without a space, one
  space, \<open>t\<close> (without a space), and then nothing or a space and anything.
\<close>

lemma second_field_shape:
  "second_field h = Some t \<longleftrightarrow>
     (\<exists>scheme rest. h = scheme @ CHR '' '' # t @ rest \<and> CHR '' '' \<notin> set scheme \<and>
        CHR '' '' \<notin> set t \<and> (rest = [] \<or> hd rest = CHR '' ''))"
    (is "?L \<longleftrightarrow> ?R")
proof
  let ?P = "\<lambda>c. c \<noteq> CHR '' ''"
  assume ?L
  then obtain c r where d: "dropWhile ?P h = c # r" and t: "t = takeWhile ?P r"
    by (auto simp: second_field_eq split: list.splits)
  from d have c: "c = CHR '' ''"
    using hd_dropWhile [of ?P h] by simp
  have h: "h = takeWhile ?P h @ CHR '' '' # t @ dropWhile ?P r"
    using takeWhile_dropWhile_id [of ?P h] d c t by simp
  have s: "CHR '' '' \<notin> set (takeWhile ?P h)" "CHR '' '' \<notin> set t"
    using set_takeWhileD [of "CHR '' ''" ?P] t by auto
  have "dropWhile ?P r = [] \<or> hd (dropWhile ?P r) = CHR '' ''"
    using hd_dropWhile [of ?P r] by auto
  with h s show ?R by blast
next
  let ?P = "\<lambda>c. c \<noteq> CHR '' ''"
  assume ?R
  then obtain scheme rest where h: "h = scheme @ CHR '' '' # t @ rest"
    and s: "CHR '' '' \<notin> set scheme" and t: "CHR '' '' \<notin> set t"
    and r: "rest = [] \<or> hd rest = CHR '' ''"
    by blast
  from s have "dropWhile ?P h = CHR '' '' # t @ rest"
    unfolding h by (subst dropWhile_append2) auto
  moreover from r have "takeWhile ?P rest = []"
    by (cases rest) auto
  with t have "takeWhile ?P (t @ rest) = t"
    by (subst takeWhile_append2) auto
  ultimately show ?L
    by (simp add: second_field_eq)
qed

lemma authMiddleware_passes_iff:
  "authMiddleware hdr = None \<longleftrightarrow> (\<exists>h. hdr = Some h \<and> second_field h = Some ''secret-token'')"
  by (cases hdr) (auto simp: authMiddleware_def second_field_def Let_def split: list.splits)

lemma POST_products_401:
  "status (fst (POST_products toLowerCase ps uuid hdr b)) = 401 \<longleftrightarrow> authMiddleware hdr \<noteq> None"
proof (cases "authMiddleware hdr")
  case None
  show ?thesis
  proof (cases "validateProduct b")
    case vNone: None
    obtain n x c where "POST_products toLowerCase ps uuid hdr b =
        create_handler toLowerCase ps uuid n (b ''description'') x c (b ''inStock'')"
      using POST_products_passed [OF None vNone] by blast
    then show ?thesis
      using None create_handler_status [of toLowerCase ps uuid n "b ''description''" x c "b ''inStock''"]
      by (cases "create_handler toLowerCase ps uuid n (b ''description'') x c (b ''inStock'')") auto
  next
    case (Some r)
    then show ?thesis
      using None validateProduct_status [OF Some] by (simp add: POST_products_def)
  qed
next
  case (Some r)
  then show ?thesis
    using authMiddleware_status [OF Some] by (simp add: POST_products_def)
qed

lemma PUT_product_401:
  "status (fst (PUT_product toLowerCase ps productId hdr b)) = 401 \<longleftrightarrow> authMiddleware hdr \<noteq> None"
proof (cases "authMiddleware hdr")
  case None
  show ?thesis
  proof (cases "validateProduct b")
    case vNone: None
    obtain n x c where "PUT_product toLowerCase ps productId hdr b =
        update_handler toLowerCase ps productId n (b ''description'') x c (b ''inStock'')"
      using PUT_product_passed [OF None vNone] by blast
    then show ?thesis
      using None update_handler_status [of toLowerCase ps productId n "b ''description''" x c "b ''inStock''"]
      by (cases "update_handler toLowerCase ps productId n (b ''description'') x c (b ''inStock'')") auto
  next
    case (Some r)
    then show ?thesis
      using None validateProduct_status [OF Some] by (simp add: PUT_product_def)
  qed
next
  case (Some r)
  then show ?thesis
    using authMiddleware_status [OF Some] by (simp add: PUT_product_def)
qed

lemma DELETE_product_401:
  "status (fst (DELETE_product ps productId hdr)) = 401 \<longleftrightarrow> authMiddleware hdr \<noteq> None"
proof (cases "authMiddleware hdr")
  case None
  then show ?thesis
    using delete_handler_status [of ps productId]
    by (cases "delete_handler ps productId") (auto simp: DELETE_product_def)
next
  case (Some r)
  then show ?thesis
    using authMiddleware_status [OF Some] by (simp add: DELETE_product_def)
qed

text \<open>
  C4, as stated: the filter answers 401 exactly where the header is absent, is not of the
  form \<^verbatim>\<open>Bearer <token>\<close>, or carries another token than the secret. The code does not
  look at the word before the first space: \<^verbatim>\<open>Basic secret-token\<close> passes.
\<close>

theorem authMiddleware_bearer_counterexample:
  "\<not> (authMiddleware (Some ''Basic secret-token'') \<noteq> None \<longleftrightarrow>
      spec_auth_rejects (Some ''Basic secret-token''))"
  by (simp add: authMiddleware_def second_field_def spec_auth_rejects_def
      spec_bearer_token_def)

text \<open>
  C4, amended. On each of the three mutating routes the answer is 401 exactly where the
  filter stops the request, and the filter lets a request pass exactly where the header
  is present and its second space-separated field is \<^verbatim>\<open>secret-token\<close>: a first word
  without a space (of any spelling, or empty), one space, the secret, and then nothing or
  a space followed by anything. Every header the specification accepts is accepted.
\<close>

theorem authMiddleware_second_field:
  "(authMiddleware hdr = None \<longleftrightarrow>
      (\<exists>scheme rest. hdr = Some (scheme @ CHR '' '' # ''secret-token'' @ rest) \<and>
         CHR '' '' \<notin> set scheme \<and> (rest = [] \<or> hd rest = CHR '' ''))) \<and>
   (authMiddleware hdr \<noteq> None \<longrightarrow>
      authMiddleware hdr = Some (Response 401 (Error ''Unauthorized: Invalid or missing token''))) \<and>
   (\<not> spec_auth_rejects hdr \<longrightarrow> authMiddleware hdr = None) \<and>
   (status (fst (POST_products toLowerCase ps uuid hdr b)) = 401 \<longleftrightarrow> authMiddleware hdr \<noteq> None) \<and>
   (status (fst (PUT_product toLowerCase ps productId hdr b)) = 401 \<longleftrightarrow> authMiddleware hdr \<noteq> None) \<and>
   (status (fst (DELETE_product ps productId hdr)) = 401 \<longleftrightarrow> authMiddleware hdr \<noteq> None)"
proof (intro conjI)
  show "authMiddleware hdr = None \<longleftrightarrow>
      (\<exists>scheme rest. hdr = Some (scheme @ CHR '' '' # ''secret-token'' @ rest) \<and>
         CHR '' '' \<notin> set scheme \<and> (rest = [] \<or> hd rest = CHR '' ''))"
  proof -
    have "CHR '' '' \<notin> set ''secret-token''" by simp
    then show ?thesis
      unfolding authMiddleware_passes_iff second_field_shape by blast
  qed
  show "authMiddleware hdr \<noteq> None \<longrightarrow>
      authMiddleware hdr = Some (Response 401 (Error ''Unauthorized: Invalid or missing token''))"
    using authMiddleware_status by blast
  show "\<not> spec_auth_rejects hdr \<longrightarrow> authMiddleware hdr = None"
  proof
    assume "\<not> spec_auth_rejects hdr"
    then obtain h where h: "hdr = Some h" "take 7 h = ''Bearer ''" "drop 7 h = ''secret-token''"
      by (auto simp: spec_auth_rejects_def spec_bearer_token_def
          split: option.splits if_splits)
    have "h = take 7 h @ drop 7 h" by simp
    with h have "hdr = Some ''Bearer secret-token''" by simp
    then show "authMiddleware hdr = None" by (simp add: authMiddleware_Bearer)
  qed
qed (rule POST_products_401 PUT_product_401 DELETE_product_401)+

theorem authMiddleware_second_field_witness:
  "authMiddleware (Some ''Bearer secret-token'') = None \<and>
   authMiddleware (Some ''Bearer secret-token and more'') = None \<and>
   authMiddleware None = Some (Response 401 (Error ''Unauthorized: Invalid or missing token'')) \<and>
   status (fst (DELETE_product products (code_units ''1'') (Some ''Bearer wrong''))) = 401"
proof (intro conjI)
  have "\<not> spec_auth_rejects (Some ''Bearer secret-token'')"
    by (simp add: spec_auth_rejects_def spec_bearer_token_def)
  with authMiddleware_second_field [of "Some ''Bearer secret-token''",
      THEN conjunct2, THEN conjunct2, THEN conjunct1]
  show "authMiddleware (Some ''Bearer secret-token'') = None"
    by (rule mp)
next
  have "\<exists>scheme rest. Some ''Bearer secret-token and more'' =
          Some (scheme @ CHR '' '' # ''secret-token'' @ rest) \<and>
          CHR '' '' \<notin> set scheme \<and> (rest = [] \<or> hd rest = CHR '' '')"
    by (rule exI [of _ "''Bearer''"], rule exI [of _ "'' and more''"]) simp
  with authMiddleware_second_field [of "Some ''Bearer secret-token and more''",
      THEN conjunct1, THEN iffD2]
  show "authMiddleware (Some ''Bearer secret-token and more'') = None" .
next
  have "authMiddleware None \<noteq> None"
    by (simp add: authMiddleware_def)
  with authMiddleware_second_field [of None, THEN conjunct2, THEN conjunct1]
  show "authMiddleware None =
      Some (Response 401 (Error ''Unauthorized: Invalid or missing token''))"
    by (rule mp)
next
  have "authMiddleware (Some ''Bearer wrong'') \<noteq> None"
    by (simp add: authMiddleware_def second_field_def)
  with authMiddleware_second_field [of "Some ''Bearer wrong''" _ products _ _ "code_units ''1''",
      THEN conjunct2, THEN conjunct2, THEN conjunct2, THEN conjunct2, THEN conjunct2,
      THEN iffD2]
  show "status (fst (DELETE_product products (code_units ''1'') (Some ''Bearer wrong''))) = 401" .
qed

subsection \<open>Rejected requests leave the store alone\<close>

lemma POST_products_cases:
  "POST_products toLowerCase ps uuid hdr b = (r, ps') \<Longrightarrow>
     (authMiddleware hdr = Some r \<and> ps' = ps) \<or>
     (authMiddleware hdr = None \<and> validateProduct b = Some r \<and> ps' = ps) \<or>
     (authMiddleware hdr = None \<and> validateProduct b = None \<and>
        (\<exists>n x c. b ''name'' = Some (JStr n) \<and> b ''price'' = Some (JNum x) \<and>
           b ''category'' = Some (JStr c) \<and>
           create_handler toLowerCase ps uuid n (b ''description'') x c (b ''inStock'') = (r, ps')))"
proof (cases "authMiddleware hdr")
  case None
  assume p: "POST_products toLowerCase ps uuid hdr b = (r, ps')"
  show ?thesis
  proof (cases "validateProduct b")
    case vNone: None
    show ?thesis
      using POST_products_passed [OF None vNone, of toLowerCase ps uuid] p None vNone by auto
  next
    case (Some r')
    with None p show ?thesis by (simp add: POST_products_def)
  qed
next
  case (Some r')
  assume "POST_products toLowerCase ps uuid hdr b = (r, ps')"
  with Some show ?thesis by (simp add: POST_products_def)
qed

lemma PUT_product_cases:
  "PUT_product toLowerCase ps productId hdr b = (r, ps') \<Longrightarrow>
     (authMiddleware hdr = Some r \<and> ps' = ps) \<or>
     (authMiddleware hdr = None \<and> validateProduct b = Some r \<and> ps' = ps) \<or>
     (authMiddleware hdr = None \<and> validateProduct b = None \<and>
        (\<exists>n x c. b ''name'' = Some (JStr n) \<and> b ''price'' = Some (JNum x) \<and>
           b ''category'' = Some (JStr c) \<and>
           update_handler toLowerCase ps productId n (b ''description'') x c (b ''inStock'') = (r, ps')))"
proof (cases "authMiddleware hdr")
  case None
  assume p: "PUT_product toLowerCase ps productId hdr b = (r, ps')"
  show ?thesis
  proof (cases "validateProduct b")
    case vNone: None
    show ?thesis
      using PUT_product_passed [OF None vNone, of toLowerCase ps productId] p None vNone by auto
  next
    case (Some r')
    with None p show ?thesis by (simp add: PUT_product_def)
  qed
next
  case (Some r')
  assume "PUT_product toLowerCase ps productId hdr b = (r, ps')"
  with Some show ?thesis by (simp add: PUT_product_def)
qed

lemma create_handler_unchanged:
  "create_handler toLowerCase ps uuid n d x c st = (r, ps') \<Longrightarrow> status r \<noteq> 201 \<Longrightarrow> ps' = ps"
  by (auto simp: create_handler_def Let_def split: option.splits)

text \<open>
  C8. A \<^verbatim>\<open>POST /api/products\<close> that is answered 401 or 400 leaves the store as it was.
\<close>

theorem POST_products_rejected_store_unchanged:
  assumes "POST_products toLowerCase ps uuid hdr b = (r, ps')"
    and "status r = 401 \<or> status r = 400"
  shows "ps' = ps"
  using POST_products_cases [OF assms(1)] assms(2)
  by (auto dest: create_handler_unchanged)

theorem POST_products_rejected_store_unchanged_witness:
  "POST_products ascii_toLowerCase products (code_units ''u'') None
     [''name'' \<mapsto> JStr (code_units ''Mug''), ''price'' \<mapsto> JNum 5,
      ''category'' \<mapsto> JStr (code_units ''kitchen'')] =
     (Response 401 (Error ''Unauthorized: Invalid or missing token''), products) \<and>
   POST_products ascii_toLowerCase products (code_units ''u'') (Some ''Bearer secret-token'')
     [''name'' \<mapsto> JStr (code_units ''Mug''), ''price'' \<mapsto> JNum (- 5),
      ''category'' \<mapsto> JStr (code_units ''kitchen'')] =
     (Response 400 (Error ''Price is required and must be a non-negative number''), products)"
proof -
  let ?b1 = "[''name'' \<mapsto> JStr (code_units ''Mug''), ''price'' \<mapsto> JNum 5,
              ''category'' \<mapsto> JStr (code_units ''kitchen'')]"
  let ?b2 = "[''name'' \<mapsto> JStr (code_units ''Mug''), ''price'' \<mapsto> JNum (- 5),
              ''category'' \<mapsto> JStr (code_units ''kitchen'')]"
  let ?h = "Some ''Bearer secret-token''"
  let ?u = "code_units ''u''"
  have 1: "fst (POST_products ascii_toLowerCase products ?u None ?b1) =
      Response 401 (Error ''Unauthorized: Invalid or missing token'')"
    by (simp add: POST_products_def authMiddleware_def)
  have 2: "fst (POST_products ascii_toLowerCase products ?u ?h ?b2) =
      Response 400 (Error ''Price is required and must be a non-negative number'')"
    by (simp add: POST_products_def authMiddleware_Bearer validateProduct_def
        string_rejected_def price_rejected_def trim_def code_units_def is_whitespace_def)
  have 3: "snd (POST_products ascii_toLowerCase products ?u None ?b1) = products"
    by (rule POST_products_rejected_store_unchanged
        [of ascii_toLowerCase products ?u None ?b1
          "fst (POST_products ascii_toLowerCase products ?u None ?b1)"])
      (simp, simp add: 1)
  have 4: "snd (POST_products ascii_toLowerCase products ?u ?h ?b2) = products"
    by (rule POST_products_rejected_store_unchanged
        [of ascii_toLowerCase products ?u ?h ?b2
          "fst (POST_products ascii_toLowerCase products ?u ?h ?b2)"])
      (simp, simp add: 2)
  show ?thesis
    by (simp only: prod_eq_iff fst_conv snd_conv 1 2 3 4 simp_thms)
qed

subsection \<open>Create and update\<close>

lemma findIndex_None_iff: "findIndex f xs = None \<longleftrightarrow> (\<forall>x\<in>set xs. \<not> f x)"
  by (induction xs) auto

lemma findIndex_Some:
  "findIndex f xs = Some i \<Longrightarrow> i < length xs \<and> f (xs ! i) \<and> (\<forall>j<i. \<not> f (xs ! j))"
proof (induction xs arbitrary: i)
  case Nil
  then show ?case by simp
next
  case (Cons x xs)
  show ?case
  proof (cases "f x")
    case True
    with Cons.prems show ?thesis by simp
  next
    case False
    with Cons.prems obtain k where k: "findIndex f xs = Some k" "i = Suc k"
      by auto
    from Cons.IH [OF k(1)] False k(2) show ?thesis
      by (auto simp: less_Suc_eq_0_disj)
  qed
qed

lemma or_empty_absent: "or_empty None = JStr []"
  by (simp add: or_empty_def)

lemma or_empty_truthy: "truthy (Some d) \<Longrightarrow> or_empty (Some d) = d"
  by (simp add: or_empty_def)

lemma or_empty_falsy: "\<not> truthy v \<Longrightarrow> or_empty v = JStr []"
  by (cases v) (simp_all add: or_empty_def)

lemma create_handler_eq:
  "create_handler toLowerCase ps uuid n d x c st =
     (if \<exists>p\<in>set ps. toLowerCase (name p) = toLowerCase n
      then (Response 409 (Error ''Product with this name already exists''), ps)
      else (Response 201
              (Product \<lparr>pid = uuid, name = n, description = or_empty d, price = x,
                 category = c, inStock = (case st of None \<Rightarrow> JBool True | Some v \<Rightarrow> v)\<rparr>),
            ps @ [\<lparr>pid = uuid, name = n, description = or_empty d, price = x,
                 category = c, inStock = (case st of None \<Rightarrow> JBool True | Some v \<Rightarrow> v)\<rparr>]))"
proof (cases "find (\<lambda>p. toLowerCase (name p) = toLowerCase n) ps")
  case None
  then have "\<not> (\<exists>p\<in>set ps. toLowerCase (name p) = toLowerCase n)"
    by (auto simp: find_None_iff)
  with None show ?thesis
    by (simp add: create_handler_def Let_def)
next
  case (Some p)
  then have "\<exists>p\<in>set ps. toLowerCase (name p) = toLowerCase n"
    by (auto simp: find_Some_iff)
  with Some show ?thesis
    by (simp add: create_handler_def)
qed

lemma update_handler_404:
  assumes "productId \<notin> pid ` set ps"
  shows "update_handler toLowerCase ps productId n d x c st = (Response 404 (Error ''Product not found''), ps)"
proof -
  from assms have "findIndex (\<lambda>p. pid p = productId) ps = None"
    by (auto simp: findIndex_None_iff)
  then show ?thesis by (simp add: update_handler_def)
qed

lemma update_handler_409:
  assumes "productId \<in> pid ` set ps"
    and "\<exists>p\<in>set ps. pid p \<noteq> productId \<and> toLowerCase (name p) = toLowerCase n"
  shows "update_handler toLowerCase ps productId n d x c st =
           (Response 409 (Error ''Product with this name already exists''), ps)"
proof -
  from assms(1) obtain i where "findIndex (\<lambda>p. pid p = productId) ps = Some i"
    by (cases "findIndex (\<lambda>p. pid p = productId) ps") (auto simp: findIndex_None_iff)
  moreover from assms(2)
  obtain q where "find (\<lambda>p. toLowerCase (name p) = toLowerCase n \<and> pid p \<noteq> productId) ps = Some q"
    by (cases "find (\<lambda>p. toLowerCase (name p) = toLowerCase n \<and> pid p \<noteq> productId) ps")
      (auto simp: find_None_iff)
  ultimately show ?thesis by (simp add: update_handler_def)
qed

lemma update_handler_200:
  assumes "productId \<in> pid ` set ps"
    and "\<not> (\<exists>p\<in>set ps. pid p \<noteq> productId \<and> toLowerCase (name p) = toLowerCase n)"
  shows "\<exists>i<length ps. pid (ps ! i) = productId \<and> (\<forall>j<i. pid (ps ! j) \<noteq> productId) \<and>
           update_handler toLowerCase ps productId n d x c st =
             (Response 200
                (Product \<lparr>pid = productId, name = n, description = or_empty d, price = x,
                   category = c,
                   inStock = (case st of None \<Rightarrow> inStock (ps ! i) | Some v \<Rightarrow> v)\<rparr>),
              ps[i := \<lparr>pid = productId, name = n, description = or_empty d, price = x,
                   category = c,
                   inStock = (case st of None \<Rightarrow> inStock (ps ! i) | Some v \<Rightarrow> v)\<rparr>])"
proof -
  from assms(1) obtain i where i: "findIndex (\<lambda>p. pid p = productId) ps = Some i"
    by (cases "findIndex (\<lambda>p. pid p = productId) ps") (auto simp: findIndex_None_iff)
  from assms(2)
  have "find (\<lambda>p. toLowerCase (name p) = toLowerCase n \<and> pid p \<noteq> productId) ps = None"
    by (auto simp: find_None_iff)
  with i have "update_handler toLowerCase ps productId n d x c st =
             (Response 200
                (Product \<lparr>pid = productId, name = n, description = or_empty d, price = x,
                   category = c,
                   inStock = (case st of None \<Rightarrow> inStock (ps ! i) | Some v \<Rightarrow> v)\<rparr>),
              ps[i := \<lparr>pid = productId, name = n, description = or_empty d, price = x,
                   category = c,
                   inStock = (case st of None \<Rightarrow> inStock (ps ! i) | Some v \<Rightarrow> v)\<rparr>])"
    by (simp add: update_handler_def Let_def json_ok_def)
  with findIndex_Some [OF i] show ?thesis by blast
qed

text \<open>\<^verbatim>\<open>v || ''\<close> spelt out over the JSON values.\<close>

lemma or_empty_eq:
  "or_empty v =
     (case v of
        None \<Rightarrow> JStr []
      | Some d \<Rightarrow>
          if d = JNull \<or> d = JBool False \<or> d = JNum 0 \<or> d = JStr [] then JStr [] else d)"
proof (cases v)
  case None
  then show ?thesis by (simp add: or_empty_def)
next
  case (Some d)
  then show ?thesis by (cases d) (auto simp: or_empty_def)
qed

text \<open>
  C2. An authenticated, validated create request is answered 409, with the store as it
  was, where a stored name equals the body's name after \<^verbatim>\<open>toLowerCase\<close> of both.
  Otherwise the new record is appended to the store and returned with 201: its id is the
  identifier \<^verbatim>\<open>uuidv4()\<close> has generated, its name, price and category are the body's,
  its description is the body's, or the empty string where the body has none (or has
  null, false, 0 or the empty string), and its \<open>inStock\<close> is the body's, or true where
  the body has none. Where the generated identifier is fresh, no stored product carries
  the new record's id and the ids of the store stay pairwise distinct.
\<close>

theorem POST_products_creates:
  assumes "authMiddleware hdr = None" and "validateProduct b = None"
  shows "\<exists>n x c. b ''name'' = Some (JStr n) \<and> b ''price'' = Some (JNum x) \<and>
           b ''category'' = Some (JStr c) \<and>
           (let newProduct =
                  \<lparr>pid = uuid, name = n,
                   description =
                     (case b ''description'' of
                        None \<Rightarrow> JStr []
                      | Some d \<Rightarrow>
                          if d = JNull \<or> d = JBool False \<or> d = JNum 0 \<or> d = JStr []
                          then JStr [] else d),
                   price = x, category = c,
                   inStock = (case b ''inStock'' of None \<Rightarrow> JBool True | Some v \<Rightarrow> v)\<rparr>
            in POST_products toLowerCase ps uuid hdr b =
                 (if \<exists>p\<in>set ps. toLowerCase (name p) = toLowerCase n
                  then (Response 409 (Error ''Product with this name already exists''), ps)
                  else (Response 201 (Product newProduct), ps @ [newProduct])) \<and>
               (uuid \<notin> pid ` set ps \<longrightarrow>
                  (\<forall>p\<in>set ps. pid p \<noteq> pid newProduct) \<and>
                  (distinct (map pid ps) \<longrightarrow> distinct (map pid (ps @ [newProduct])))))"
proof -
  obtain n x c where f: "b ''name'' = Some (JStr n)" "b ''price'' = Some (JNum x)"
      "b ''category'' = Some (JStr c)"
    and p: "POST_products toLowerCase ps uuid hdr b =
      create_handler toLowerCase ps uuid n (b ''description'') x c (b ''inStock'')"
    using POST_products_passed [OF assms] by blast
  let ?new = "\<lparr>pid = uuid, name = n,
                   description =
                     (case b ''description'' of
                        None \<Rightarrow> JStr []
                      | Some d \<Rightarrow>
                          if d = JNull \<or> d = JBool False \<or> d = JNum 0 \<or> d = JStr []
                          then JStr [] else d),
                   price = x, category = c,
                   inStock = (case b ''inStock'' of None \<Rightarrow> JBool True | Some v \<Rightarrow> v)\<rparr>"
  have 1: "POST_products toLowerCase ps uuid hdr b =
      (if \<exists>p\<in>set ps. toLowerCase (name p) = toLowerCase n
       then (Response 409 (Error ''Product with this name already exists''), ps)
       else (Response 201 (Product ?new), ps @ [?new]))"
    unfolding p create_handler_eq or_empty_eq [of "b ''description''"] ..
  have 2: "uuid \<notin> pid ` set ps \<longrightarrow>
      (\<forall>p\<in>set ps. pid p \<noteq> pid ?new) \<and>
      (distinct (map pid ps) \<longrightarrow> distinct (map pid (ps @ [?new])))"
    by auto
  from f 1 2 show ?thesis
    unfolding Let_def by blast
qed

theorem POST_products_creates_witness:
  "POST_products ascii_toLowerCase products (code_units ''u1'') (Some ''Bearer secret-token'')
     [''name'' \<mapsto> JStr (code_units ''LAPTOP''), ''price'' \<mapsto> JNum 5,
      ''category'' \<mapsto> JStr (code_units ''x'')] =
     (Response 409 (Error ''Product with this name already exists''), products) \<and>
   POST_products ascii_toLowerCase products (code_units ''u1'') (Some ''Bearer secret-token'')
     [''name'' \<mapsto> JStr (code_units ''Mug''), ''price'' \<mapsto> JNum 5,
      ''category'' \<mapsto> JStr (code_units ''kitchen''),
      ''description'' \<mapsto> JStr (code_units ''A mug'')] =
     (Response 201
        (Product \<lparr>pid = code_units ''u1'', name = code_units ''Mug'',
           description = JStr (code_units ''A mug''), price = 5,
           category = code_units ''kitchen'', inStock = JBool True\<rparr>),
      products @ [\<lparr>pid = code_units ''u1'', name = code_units ''Mug'',
           description = JStr (code_units ''A mug''), price = 5,
           category = code_units ''kitchen'', inStock = JBool True\<rparr>]) \<and>
   distinct (map pid (products @ [\<lparr>pid = code_units ''u1'', name = code_units ''Mug'',
           description = JStr (code_units ''A mug''), price = 5,
           category = code_units ''kitchen'', inStock = JBool True\<rparr>]))"
proof -
  let ?b1 = "[''name'' \<mapsto> JStr (code_units ''LAPTOP''), ''price'' \<mapsto> JNum 5,
              ''category'' \<mapsto> JStr (code_units ''x'')]"
  let ?b2 = "[''name'' \<mapsto> JStr (code_units ''Mug''), ''price'' \<mapsto> JNum 5,
              ''category'' \<mapsto> JStr (code_units ''kitchen''),
              ''description'' \<mapsto> JStr (code_units ''A mug'')]"
  have v: "validateProduct ?b1 = None" "validateProduct ?b2 = None"
    by (simp_all add: validateProduct_def string_rejected_def price_rejected_def trim_def
        code_units_def is_whitespace_def)
  have l: "(\<exists>p\<in>set products.
              ascii_toLowerCase (name p) = ascii_toLowerCase (code_units ''LAPTOP'')) = True"
    "(\<exists>p\<in>set products.
        ascii_toLowerCase (name p) = ascii_toLowerCase (code_units ''Mug'')) = False"
    by code_simp+
  have u: "code_units ''u1'' \<notin> pid ` set products" "distinct (map pid products)"
    "code_units ''A mug'' \<noteq> []"
    by (simp_all add: products_def code_units_def)
  show ?thesis
    using POST_products_creates [OF authMiddleware_Bearer v(1),
        where toLowerCase = ascii_toLowerCase and ps = products and uuid = "code_units ''u1''"]
      POST_products_creates [OF authMiddleware_Bearer v(2),
        where toLowerCase = ascii_toLowerCase and ps = products and uuid = "code_units ''u1''"] u
    by (simp add: l Let_def)
qed

text \<open>
  C3. An authenticated, validated update request is answered 404 where no product has the
  path id, else 409 where a product with another id has the body's name after
  \<^verbatim>\<open>toLowerCase\<close> of both. Otherwise the first record with that id is replaced, and the
  new record is returned with 200: its id is the path id, its name, price and category
  are the body's, its description is the body's, or the empty string where the body has
  none (or has null, false, 0 or the empty string), and its \<open>inStock\<close> is the body's, or
  that of the replaced record where the body has none. No other record changes.
\<close>

theorem PUT_product_updates:
  assumes "authMiddleware hdr = None" and "validateProduct b = None"
  shows "\<exists>n x c. b ''name'' = Some (JStr n) \<and> b ''price'' = Some (JNum x) \<and>
           b ''category'' = Some (JStr c) \<and>
           (if productId \<notin> pid ` set ps
            then PUT_product toLowerCase ps productId hdr b =
                   (Response 404 (Error ''Product not found''), ps)
            else if \<exists>p\<in>set ps. pid p \<noteq> productId \<and> toLowerCase (name p) = toLowerCase n
            then PUT_product toLowerCase ps productId hdr b =
                   (Response 409 (Error ''Product with this name already exists''), ps)
            else \<exists>i<length ps. pid (ps ! i) = productId \<and> (\<forall>j<i. pid (ps ! j) \<noteq> productId) \<and>
                   (let updatedProduct =
                          \<lparr>pid = productId, name = n,
                           description =
                             (case b ''description'' of
                                None \<Rightarrow> JStr []
                              | Some d \<Rightarrow>
                                  if d = JNull \<or> d = JBool False \<or> d = JNum 0 \<or> d = JStr []
                                  then JStr [] else d),
                           price = x, category = c,
                           inStock = (case b ''inStock'' of
                                        None \<Rightarrow> inStock (ps ! i) | Some v \<Rightarrow> v)\<rparr>
                    in PUT_product toLowerCase ps productId hdr b =
                         (Response 200 (Product updatedProduct), ps[i := updatedProduct])))"
proof -
  obtain n x c where f: "b ''name'' = Some (JStr n)" "b ''price'' = Some (JNum x)"
      "b ''category'' = Some (JStr c)"
    and p: "PUT_product toLowerCase ps productId hdr b =
      update_handler toLowerCase ps productId n (b ''description'') x c (b ''inStock'')"
    using PUT_product_passed [OF assms] by blast
  let ?d = "b ''description''" and ?st = "b ''inStock''"
  let ?upd = "\<lambda>i. \<lparr>pid = productId, name = n,
                           description =
                             (case b ''description'' of
                                None \<Rightarrow> JStr []
                              | Some d \<Rightarrow>
                                  if d = JNull \<or> d = JBool False \<or> d = JNum 0 \<or> d = JStr []
                                  then JStr [] else d),
                           price = x, category = c,
                           inStock = (case b ''inStock'' of
                                        None \<Rightarrow> inStock (ps ! i) | Some v \<Rightarrow> v)\<rparr>"
  have e: "if productId \<notin> pid ` set ps
            then update_handler toLowerCase ps productId n ?d x c ?st =
                   (Response 404 (Error ''Product not found''), ps)
            else if \<exists>p\<in>set ps. pid p \<noteq> productId \<and> toLowerCase (name p) = toLowerCase n
            then update_handler toLowerCase ps productId n ?d x c ?st =
                   (Response 409 (Error ''Product with this name already exists''), ps)
            else \<exists>i<length ps. pid (ps ! i) = productId \<and> (\<forall>j<i. pid (ps ! j) \<noteq> productId) \<and>
                   update_handler toLowerCase ps productId n ?d x c ?st =
                     (Response 200 (Product (?upd i)), ps[i := ?upd i])"
  proof (cases "productId \<notin> pid ` set ps")
    case True
    from update_handler_404 [OF True] True show ?thesis
      by (simp only: if_True if_False simp_thms)
  next
    case absent: False
    then have present: "productId \<in> pid ` set ps" by simp
    show ?thesis
    proof (cases "\<exists>p\<in>set ps. pid p \<noteq> productId \<and> toLowerCase (name p) = toLowerCase n")
      case True
      from update_handler_409 [OF present True] absent True show ?thesis
        by (simp only: if_True if_False)
    next
      case False
      from update_handler_200 [OF present False, of ?d x c ?st] absent False show ?thesis
        unfolding or_empty_eq [of ?d] by (simp only: if_False)
    qed
  qed
  show ?thesis
    unfolding p Let_def
    by (rule exI [of _ n], rule exI [of _ x], rule exI [of _ c])
      (intro conjI f e)
qed

theorem PUT_product_updates_witness:
  "PUT_product ascii_toLowerCase products (code_units ''9'') (Some ''Bearer secret-token'')
     [''name'' \<mapsto> JStr (code_units ''Mug''), ''price'' \<mapsto> JNum 5,
      ''category'' \<mapsto> JStr (code_units ''kitchen'')] =
     (Response 404 (Error ''Product not found''), products) \<and>
   PUT_product ascii_toLowerCase products (code_units ''3'') (Some ''Bearer secret-token'')
     [''name'' \<mapsto> JStr (code_units ''LAPTOP''), ''price'' \<mapsto> JNum 5,
      ''category'' \<mapsto> JStr (code_units ''x'')] =
     (Response 409 (Error ''Product with this name already exists''), products) \<and>
   PUT_product ascii_toLowerCase products (code_units ''3'') (Some ''Bearer secret-token'')
     [''name'' \<mapsto> JStr (code_units ''coffee maker''), ''price'' \<mapsto> JNum 60,
      ''category'' \<mapsto> JStr (code_units ''kitchen''),
      ''description'' \<mapsto> JStr (code_units ''Drip'')] =
     (Response 200
        (Product \<lparr>pid = code_units ''3'', name = code_units ''coffee maker'',
           description = JStr (code_units ''Drip''), price = 60,
           category = code_units ''kitchen'', inStock = JBool False\<rparr>),
      products[2 := \<lparr>pid = code_units ''3'', name = code_units ''coffee maker'',
           description = JStr (code_units ''Drip''), price = 60,
           category = code_units ''kitchen'', inStock = JBool False\<rparr>])"
proof (intro conjI)
  let ?h = "Some ''Bearer secret-token''"
  let ?b1 = "[''name'' \<mapsto> JStr (code_units ''Mug''), ''price'' \<mapsto> JNum 5,
              ''category'' \<mapsto> JStr (code_units ''kitchen'')]"
  let ?b2 = "[''name'' \<mapsto> JStr (code_units ''LAPTOP''), ''price'' \<mapsto> JNum 5,
              ''category'' \<mapsto> JStr (code_units ''x'')]"
  let ?b3 = "[''name'' \<mapsto> JStr (code_units ''coffee maker''), ''price'' \<mapsto> JNum 60,
              ''category'' \<mapsto> JStr (code_units ''kitchen''),
              ''description'' \<mapsto> JStr (code_units ''Drip'')]"
  have v: "validateProduct ?b1 = None" "validateProduct ?b2 = None" "validateProduct ?b3 = None"
    by (simp_all add: validateProduct_def string_rejected_def price_rejected_def trim_def
        code_units_def is_whitespace_def)
  have ids: "(code_units ''9'' \<notin> pid ` set products) = True"
    "(code_units ''3'' \<notin> pid ` set products) = False"
    by (simp_all add: products_def code_units_def)
  have l: "(\<exists>p\<in>set products. pid p \<noteq> code_units ''3'' \<and>
              ascii_toLowerCase (name p) = ascii_toLowerCase (code_units ''LAPTOP'')) = True"
    "(\<exists>p\<in>set products. pid p \<noteq> code_units ''3'' \<and>
        ascii_toLowerCase (name p) = ascii_toLowerCase (code_units ''coffee maker'')) = False"
    by code_simp+
  have ne: "code_units ''Drip'' \<noteq> []"
    by (simp add: code_units_def)
  show "PUT_product ascii_toLowerCase products (code_units ''9'') ?h ?b1 =
      (Response 404 (Error ''Product not found''), products)"
    using PUT_product_updates [OF authMiddleware_Bearer v(1),
        where toLowerCase = ascii_toLowerCase and ps = products
          and productId = "code_units ''9''"]
    by (simp add: ids)
  show "PUT_product ascii_toLowerCase products (code_units ''3'') ?h ?b2 =
      (Response 409 (Error ''Product with this name already exists''), products)"
    using PUT_product_updates [OF authMiddleware_Bearer v(2),
        where toLowerCase = ascii_toLowerCase and ps = products
          and productId = "code_units ''3''"]
    by (simp add: ids l)
  from PUT_product_updates [OF authMiddleware_Bearer v(3),
        where toLowerCase = ascii_toLowerCase and ps = products
          and productId = "code_units ''3''"]
  obtain i where i: "i < length products" "pid (products ! i) = code_units ''3''"
    and p: "PUT_product ascii_toLowerCase products (code_units ''3'') ?h ?b3 =
      (Response 200
         (Product \<lparr>pid = code_units ''3'', name = code_units ''coffee maker'',
            description = JStr (code_units ''Drip''), price = 60,
            category = code_units ''kitchen'', inStock = inStock (products ! i)\<rparr>),
       products[i := \<lparr>pid = code_units ''3'', name = code_units ''coffee maker'',
            description = JStr (code_units ''Drip''), price = 60,
            category = code_units ''kitchen'', inStock = inStock (products ! i)\<rparr>])"
    by (auto simp: ids l ne Let_def)
  from i(1) have "i = 0 \<or> i = 1 \<or> i = 2"
    by (auto simp: products_def)
  with i(2) have "i = 2"
    by (auto simp: products_def code_units_def)
  with p show "PUT_product ascii_toLowerCase products (code_units ''3'') ?h ?b3 =
     (Response 200
        (Product \<lparr>pid = code_units ''3'', name = code_units ''coffee maker'',
           description = JStr (code_units ''Drip''), price = 60,
           category = code_units ''kitchen'', inStock = JBool False\<rparr>),
      products[2 := \<lparr>pid = code_units ''3'', name = code_units ''coffee maker'',
           description = JStr (code_units ''Drip''), price = 60,
           category = code_units ''kitchen'', inStock = JBool False\<rparr>])"
    by (simp add: products_def)
qed

subsection \<open>Invariants of the store\<close>

lemma distinct_map_update:
  assumes "distinct (map f xs)" and "i < length xs"
    and "\<And>j. j < length xs \<Longrightarrow> j \<noteq> i \<Longrightarrow> f (xs ! j) \<noteq> f y"
  shows "distinct (map f (xs[i := y]))"
proof -
  have "f y \<notin> set (map f xs) - {map f xs ! i}"
  proof
    assume "f y \<in> set (map f xs) - {map f xs ! i}"
    then obtain j where j: "j < length xs" "f (xs ! j) = f y" "f y \<noteq> f (xs ! i)"
      using assms(2) by (auto simp: in_set_conv_nth)
    then have "j \<noteq> i" by auto
    with assms(3) j show False by blast
  qed
  with assms(1) have "distinct ((map f xs)[i := f y])"
    by (rule distinct_list_update)
  then show ?thesis by (simp add: map_update)
qed

lemma distinct_remove_nth:
  assumes "distinct xs"
  shows "distinct (take i xs @ drop (Suc i) xs)"
proof -
  from assms have "distinct (take i xs @ drop i xs)"
    by simp
  then have d: "distinct (take i xs)" "set (take i xs) \<inter> set (drop i xs) = {}"
    unfolding distinct_append by blast+
  have "set (drop (Suc i) xs) \<subseteq> set (drop i xs)"
    by (rule set_drop_subset_set_drop) simp
  with d distinct_drop [OF assms, of "Suc i"] show ?thesis
    unfolding distinct_append by blast
qed

lemma distinct_map_remove_nth:
  "distinct (map f xs) \<Longrightarrow> distinct (map f (take i xs @ drop (Suc i) xs))"
  using distinct_remove_nth [of "map f xs" i] by (simp add: take_map drop_map)

text \<open>With distinct ids, the product found by id is the only one that carries it.\<close>

lemma distinct_pid_nth:
  assumes "distinct (map pid ps)" and "i < length ps" and "j < length ps"
    and "pid (ps ! j) = pid (ps ! i)"
  shows "j = i"
  using assms by (auto simp: distinct_conv_nth)

lemma create_handler_pids:
  assumes "distinct (map pid ps)" and "uuid \<notin> pid ` set ps"
    and "create_handler toLowerCase ps uuid n d x c st = (r, ps')"
  shows "distinct (map pid ps')"
  using assms by (auto simp: create_handler_eq split: if_splits)

lemma update_handler_pids:
  assumes "distinct (map pid ps)"
    and "update_handler toLowerCase ps productId n d x c st = (r, ps')"
  shows "distinct (map pid ps')"
proof (cases "productId \<notin> pid ` set ps")
  case True
  from update_handler_404 [OF True] assms show ?thesis by simp
next
  case absent: False
  then have present: "productId \<in> pid ` set ps" by simp
  show ?thesis
  proof (cases "\<exists>p\<in>set ps. pid p \<noteq> productId \<and> toLowerCase (name p) = toLowerCase n")
    case True
    from update_handler_409 [OF present True] assms show ?thesis by simp
  next
    case False
    from update_handler_200 [OF present False, of d x c st] assms(2)
    obtain i q where i: "i < length ps" "pid (ps ! i) = productId"
      and q: "ps' = ps[i := q]" "pid q = productId"
      by auto
    have "(map pid ps)[i := productId] = map pid ps"
      using i by (metis list_update_id nth_map)
    then have "map pid ps' = map pid ps"
      using q by (simp add: map_update)
    with assms(1) show ?thesis by simp
  qed
qed

lemma delete_handler_cases:
  assumes "delete_handler ps productId = (r, ps')"
  shows "ps' = ps \<or> (\<exists>i. ps' = take i ps @ drop (Suc i) ps)"
  using assms by (auto simp: delete_handler_def Let_def split: option.splits)

lemma delete_handler_pids:
  assumes "distinct (map pid ps)" and "delete_handler ps productId = (r, ps')"
  shows "distinct (map pid ps')"
  using delete_handler_cases [OF assms(2)] assms(1) distinct_map_remove_nth [of pid ps]
  by auto

text \<open>The ids of a reachable store are pairwise distinct.\<close>

lemma reachable_distinct_pid: "reachable toLowerCase ps \<Longrightarrow> distinct (map pid ps)"
proof (induction rule: reachable.induct)
  case seed
  show ?case by (simp add: products_def code_units_def)
next
  case (create ps uuid authHeader reqBody r ps')
  from POST_products_cases [OF create.hyps(3)] create.IH create.hyps(2)
  show ?case by (auto dest: create_handler_pids)
next
  case (update ps productId authHeader reqBody r ps')
  from PUT_product_cases [OF update.hyps(2)] update.IH
  show ?case by (auto dest: update_handler_pids)
next
  case (delete ps productId authHeader r ps')
  then show ?case
    by (auto simp: DELETE_product_def split: option.splits dest: delete_handler_pids)
qed

lemma create_handler_names:
  assumes "distinct (map (\<lambda>p. toLowerCase (name p)) ps)"
    and "create_handler toLowerCase ps uuid n d x c st = (r, ps')"
  shows "distinct (map (\<lambda>p. toLowerCase (name p)) ps')"
proof (cases "\<exists>p\<in>set ps. toLowerCase (name p) = toLowerCase n")
  case True
  with assms(2) have "ps' = ps" by (simp add: create_handler_eq)
  with assms(1) show ?thesis by simp
next
  case False
  with assms(2) obtain q where q: "ps' = ps @ [q]" "name q = n"
    by (auto simp: create_handler_eq)
  with assms(1) False show ?thesis
    by auto
qed

lemma update_handler_names:
  assumes "distinct (map pid ps)" and "distinct (map (\<lambda>p. toLowerCase (name p)) ps)"
    and "update_handler toLowerCase ps productId n d x c st = (r, ps')"
  shows "distinct (map (\<lambda>p. toLowerCase (name p)) ps')"
proof (cases "productId \<notin> pid ` set ps")
  case True
  from update_handler_404 [OF True] assms show ?thesis by simp
next
  case absent: False
  then have present: "productId \<in> pid ` set ps" by simp
  show ?thesis
  proof (cases "\<exists>p\<in>set ps. pid p \<noteq> productId \<and> toLowerCase (name p) = toLowerCase n")
    case True
    from update_handler_409 [OF present True] assms show ?thesis by simp
  next
    case False
    from update_handler_200 [OF present False, of d x c st] assms(3)
    obtain i q where i: "i < length ps" "pid (ps ! i) = productId"
      and q: "ps' = ps[i := q]" "name q = n"
      by auto
    show ?thesis
      unfolding q(1)
    proof (rule distinct_map_update [OF assms(2) i(1)])
      fix j
      assume j: "j < length ps" "j \<noteq> i"
      with assms(1) i have "pid (ps ! j) \<noteq> productId"
        using distinct_pid_nth [of ps i j] by auto
      moreover from j have "ps ! j \<in> set ps" by simp
      ultimately show "toLowerCase (name (ps ! j)) \<noteq> toLowerCase (name q)"
        using False q(2) by auto
    qed
  qed
qed

lemma delete_handler_names:
  assumes "distinct (map (\<lambda>p. toLowerCase (name p)) ps)"
    and "delete_handler ps productId = (r, ps')"
  shows "distinct (map (\<lambda>p. toLowerCase (name p)) ps')"
  using delete_handler_cases [OF assms(2)] assms(1)
    distinct_map_remove_nth [of "\<lambda>p. toLowerCase (name p)" ps]
  by auto

text \<open>The seed names are ASCII, and their lower-cased forms differ.\<close>

lemma seed_names_ascii: "\<forall>p\<in>set products. list_all (\<lambda>c. c < 0x80) (name p)"
  by code_simp

lemma ascii_names_products:
  "distinct (map (\<lambda>p. ascii_toLowerCase (name p)) products)"
  by code_simp

lemma seed_names_distinct:
  assumes "lower_cases_ascii toLowerCase"
  shows "distinct (map (\<lambda>p. toLowerCase (name p)) products)"
proof -
  have e: "map (\<lambda>p. toLowerCase (name p)) products =
      map (\<lambda>p. ascii_toLowerCase (name p)) products"
    using assms seed_names_ascii by (intro map_cong) (auto simp: lower_cases_ascii_def)
  show ?thesis
    unfolding e by (rule ascii_names_products)
qed

lemma reachable_invariant:
  assumes "lower_cases_ascii toLowerCase"
  shows "reachable toLowerCase ps \<Longrightarrow> invariant toLowerCase ps"
proof (induction rule: reachable.induct)
  case seed
  show ?case
    using seed_names_distinct [OF assms] reachable_distinct_pid [OF reachable.seed]
    by (simp add: invariant_def)
next
  case (create ps uuid authHeader reqBody r ps')
  from POST_products_cases [OF create.hyps(3)] create.IH create.hyps(2)
  show ?case
    unfolding invariant_def by (auto dest: create_handler_pids create_handler_names)
next
  case (update ps productId authHeader reqBody r ps')
  from PUT_product_cases [OF update.hyps(2)] update.IH
  show ?case
    unfolding invariant_def by (auto dest: update_handler_pids update_handler_names)
next
  case (delete ps productId authHeader r ps')
  then show ?case
    unfolding invariant_def
    by (auto simp: DELETE_product_def split: option.splits
        dest: delete_handler_pids delete_handler_names)
qed

text \<open>
  C1. In every store reachable from the seed data through create, update and delete
  requests, no two products have names that are equal after \<^verbatim>\<open>toLowerCase\<close>, the
  comparison the handlers make. Of \<^verbatim>\<open>toLowerCase\<close> the proof uses only what it does to
  the three seed names, which are ASCII.
\<close>

theorem reachable_names_unique:
  assumes "lower_cases_ascii toLowerCase"
    and "reachable toLowerCase ps" and "i < length ps" and "j < length ps" and "i \<noteq> j"
  shows "toLowerCase (name (ps ! i)) \<noteq> toLowerCase (name (ps ! j))"
proof -
  from reachable_invariant [OF assms(1,2)]
  have "distinct (map (\<lambda>p. toLowerCase (name p)) ps)"
    by (simp add: invariant_def)
  with assms(3-) show ?thesis
    by (auto simp: distinct_conv_nth)
qed

lemma POST_products_Mug:
  "POST_products ascii_toLowerCase products (code_units ''u1'') (Some ''Bearer secret-token'')
     [''name'' \<mapsto> JStr (code_units ''Mug''), ''price'' \<mapsto> JNum 5,
      ''category'' \<mapsto> JStr (code_units ''kitchen'')] =
     (Response 201
        (Product \<lparr>pid = code_units ''u1'', name = code_units ''Mug'', description = JStr [],
           price = 5, category = code_units ''kitchen'', inStock = JBool True\<rparr>),
      products @ [\<lparr>pid = code_units ''u1'', name = code_units ''Mug'', description = JStr [],
           price = 5, category = code_units ''kitchen'', inStock = JBool True\<rparr>])"
proof -
  let ?b = "[''name'' \<mapsto> JStr (code_units ''Mug''), ''price'' \<mapsto> JNum 5,
             ''category'' \<mapsto> JStr (code_units ''kitchen'')]"
  have "validateProduct ?b = None"
    by (simp add: validateProduct_def string_rejected_def price_rejected_def trim_def
        code_units_def is_whitespace_def)
  moreover have "(\<exists>p\<in>set products.
      ascii_toLowerCase (name p) = ascii_toLowerCase (code_units ''Mug'')) = False"
    by code_simp
  ultimately show ?thesis
    by (simp add: POST_products_def authMiddleware_Bearer validated_def create_handler_eq
        or_empty_def)
qed

theorem reachable_names_unique_witness:
  "reachable ascii_toLowerCase
     (products @ [\<lparr>pid = code_units ''u1'', name = code_units ''Mug'', description = JStr [],
        price = 5, category = code_units ''kitchen'', inStock = JBool True\<rparr>]) \<and>
   ascii_toLowerCase
     (name ((products @ [\<lparr>pid = code_units ''u1'', name = code_units ''Mug'',
        description = JStr [], price = 5, category = code_units ''kitchen'',
        inStock = JBool True\<rparr>]) ! 0)) \<noteq>
   ascii_toLowerCase
     (name ((products @ [\<lparr>pid = code_units ''u1'', name = code_units ''Mug'',
        description = JStr [], price = 5, category = code_units ''kitchen'',
        inStock = JBool True\<rparr>]) ! 3))"
proof -
  let ?ps = "products @ [\<lparr>pid = code_units ''u1'', name = code_units ''Mug'',
       description = JStr [], price = 5, category = code_units ''kitchen'',
       inStock = JBool True\<rparr>]"
  have "code_units ''u1'' \<notin> pid ` set products"
    by (simp add: products_def code_units_def)
  with reachable.seed [of ascii_toLowerCase] have r: "reachable ascii_toLowerCase ?ps"
    using POST_products_Mug by (rule reachable.create)
  have a: "lower_cases_ascii ascii_toLowerCase"
    by (simp add: lower_cases_ascii_def)
  have "(0::nat) < length ?ps" "(3::nat) < length ?ps" "(0::nat) \<noteq> 3"
    by (simp_all add: products_def)
  with r a show ?thesis
    using reachable_names_unique [of ascii_toLowerCase ?ps 0 3] by blast
qed

subsection \<open>Delete, then get\<close>

lemma delete_handler_present:
  assumes "distinct (map pid ps)" and "p \<in> set ps"
  shows "\<exists>i<length ps. ps ! i = p \<and>
           delete_handler ps (pid p) =
             (Response 200 (Deleted ''Product deleted successfully'' p),
              take i ps @ drop (Suc i) ps) \<and>
           pid p \<notin> pid ` set (take i ps @ drop (Suc i) ps)"
proof -
  from assms(2) obtain k where k: "k < length ps" "ps ! k = p"
    by (auto simp: in_set_conv_nth)
  obtain i where i: "findIndex (\<lambda>q. pid q = pid p) ps = Some i"
    using assms(2)
    by (cases "findIndex (\<lambda>q. pid q = pid p) ps") (auto simp: findIndex_None_iff)
  from findIndex_Some [OF i] have il: "i < length ps" and ip: "pid (ps ! i) = pid p"
    by simp_all
  from distinct_pid_nth [OF assms(1) il k(1)] k(2) ip have "k = i" by simp
  with k have pi: "ps ! i = p" by simp
  have gone: "pid p \<notin> pid ` set (take i ps @ drop (Suc i) ps)"
  proof
    assume "pid p \<in> pid ` set (take i ps @ drop (Suc i) ps)"
    then have "pid p \<in> set (take i (map pid ps)) \<or> pid p \<in> set (drop (Suc i) (map pid ps))"
      by (auto simp: take_map drop_map)
    moreover have "map pid ps = take i (map pid ps) @ pid p # drop (Suc i) (map pid ps)"
      using il pi id_take_nth_drop [of i "map pid ps"] by simp
    then have "distinct (take i (map pid ps) @ pid p # drop (Suc i) (map pid ps))"
      using assms(1) by simp
    ultimately show False by auto
  qed
  from i pi have "delete_handler ps (pid p) =
      (Response 200 (Deleted ''Product deleted successfully'' p), take i ps @ drop (Suc i) ps)"
    by (simp add: delete_handler_def Let_def json_ok_def)
  with il pi gone show ?thesis by blast
qed

lemma GET_product_absent:
  "productId \<notin> pid ` set ps \<Longrightarrow>
     GET_product ps productId = Response 404 (Error ''Product not found'')"
proof -
  assume "productId \<notin> pid ` set ps"
  then have "find (\<lambda>p. pid p = productId) ps = None"
    by (auto simp: find_None_iff)
  then show ?thesis by (simp add: GET_product_def)
qed

lemma delete_handler_absent:
  "productId \<notin> pid ` set ps \<Longrightarrow>
     delete_handler ps productId = (Response 404 (Error ''Product not found''), ps)"
proof -
  assume "productId \<notin> pid ` set ps"
  then have "findIndex (\<lambda>p. pid p = productId) ps = None"
    by (auto simp: findIndex_None_iff)
  then show ?thesis by (simp add: delete_handler_def)
qed

text \<open>
  C7. In a reachable store, an authenticated delete of the id of a stored product is
  answered 200 with the confirmation message and that product, and a get of the same id
  on the store it leaves is answered 404; an authenticated delete of an id that no stored
  product carries is answered 404.
\<close>

theorem DELETE_then_GET_not_found:
  assumes "reachable toLowerCase ps" and "authMiddleware hdr = None"
  shows "(p \<in> set ps \<longrightarrow>
            (\<exists>ps'. DELETE_product ps (pid p) hdr =
                     (Response 200 (Deleted ''Product deleted successfully'' p), ps') \<and>
                   GET_product ps' (pid p) = Response 404 (Error ''Product not found''))) \<and>
         (productId \<notin> pid ` set ps \<longrightarrow>
            DELETE_product ps productId hdr = (Response 404 (Error ''Product not found''), ps))"
proof (intro conjI impI)
  assume "p \<in> set ps"
  moreover have "distinct (map pid ps)"
    by (rule reachable_distinct_pid [OF assms(1)])
  ultimately obtain i where
    "delete_handler ps (pid p) =
       (Response 200 (Deleted ''Product deleted successfully'' p), take i ps @ drop (Suc i) ps)"
    "pid p \<notin> pid ` set (take i ps @ drop (Suc i) ps)"
    using delete_handler_present by blast
  with assms(2) show "\<exists>ps'. DELETE_product ps (pid p) hdr =
                     (Response 200 (Deleted ''Product deleted successfully'' p), ps') \<and>
                   GET_product ps' (pid p) = Response 404 (Error ''Product not found'')"
    using GET_product_absent by (auto simp: DELETE_product_def)
next
  assume "productId \<notin> pid ` set ps"
  with assms(2) show "DELETE_product ps productId hdr =
      (Response 404 (Error ''Product not found''), ps)"
    by (simp add: DELETE_product_def delete_handler_absent)
qed

theorem DELETE_then_GET_not_found_witness:
  "(\<exists>ps'. DELETE_product products (code_units ''2'') (Some ''Bearer secret-token'') =
            (Response 200
               (Deleted ''Product deleted successfully''
                  \<lparr>pid = code_units ''2'', name = code_units ''Smartphone'',
                    description = JStr (code_units ''Latest model with 128GB storage''),
                    price = 800, category = code_units ''electronics'',
                    inStock = JBool True\<rparr>), ps') \<and>
          GET_product ps' (code_units ''2'') = Response 404 (Error ''Product not found'')) \<and>
   DELETE_product products (code_units ''9'') (Some ''Bearer secret-token'') =
     (Response 404 (Error ''Product not found''), products)"
proof -
  let ?p = "\<lparr>pid = code_units ''2'', name = code_units ''Smartphone'',
             description = JStr (code_units ''Latest model with 128GB storage''),
             price = 800, category = code_units ''electronics'', inStock = JBool True\<rparr>"
  have 1: "?p \<in> set products" by (simp add: products_def)
  have 2: "code_units ''9'' \<notin> pid ` set products"
    by (simp add: products_def code_units_def)
  from DELETE_then_GET_not_found
    [OF reachable.seed [of ascii_toLowerCase] authMiddleware_Bearer, of ?p "code_units ''9''"] 1 2
  show ?thesis by simp
qed

subsection \<open>Listing\<close>

lemma search_filter_None_iff:
  "search_filter toLowerCase s ps = None \<longleftrightarrow>
     (\<exists>x\<in>set ps. search_matches toLowerCase s x = None)"
  by (induction ps) (auto split: option.splits)



text \<open>\<^verbatim>\<open>s.includes(t)\<close> holds exactly where \<open>s\<close> is some prefix, \<open>t\<close>, and some suffix.\<close>

lemma includes_str_iff: "includes_str s t \<longleftrightarrow> (\<exists>a b. s = a @ t @ b)"
proof (induction s)
  case Nil
  show ?case by auto
next
  case (Cons c cs)
  have "take (length t) (c # cs) = t \<longleftrightarrow> (\<exists>b. c # cs = t @ b)"
    by (metis append_eq_conv_conj append_take_drop_id)
  moreover have "(\<exists>a b. c # cs = a @ t @ b) \<longleftrightarrow>
      (\<exists>b. c # cs = t @ b) \<or> (\<exists>a b. cs = a @ t @ b)"
  proof
    assume "\<exists>a b. c # cs = a @ t @ b"
    then obtain a b where ab: "c # cs = a @ t @ b" by blast
    show "(\<exists>b. c # cs = t @ b) \<or> (\<exists>a b. cs = a @ t @ b)"
    proof (cases a)
      case Nil
      with ab show ?thesis by auto
    next
      case (Cons a0 a')
      with ab have "cs = a' @ t @ b" by simp
      then show ?thesis by blast
    qed
  next
    assume "(\<exists>b. c # cs = t @ b) \<or> (\<exists>a b. cs = a @ t @ b)"
    then show "\<exists>a b. c # cs = a @ t @ b"
    proof
      assume "\<exists>b. c # cs = t @ b"
      then obtain b where "c # cs = [] @ t @ b" by auto
      then show ?thesis by blast
    next
      assume "\<exists>a b. cs = a @ t @ b"
      then obtain a b where "c # cs = (c # a) @ t @ b" by auto
      then show ?thesis by blast
    qed
  qed
  ultimately show ?case
    using Cons.IH by simp
qed





text \<open>Arithmetic on safe integers is exact.\<close>

lemma to_double_safe: "safe_integer n \<Longrightarrow> to_double n = Finite n"
  by (simp add: to_double_def safe_integer_def)

lemma js_add_safe: "safe_integer (a + b) \<Longrightarrow> js_add (Finite a) (Finite b) = Finite (a + b)"
  by (simp add: to_double_safe)

lemma js_sub_safe: "safe_integer (a - b) \<Longrightarrow> js_sub (Finite a) (Finite b) = Finite (a - b)"
  by (simp add: js_sub_def to_double_safe)

lemma js_mul_safe: "safe_integer (a * b) \<Longrightarrow> js_mul (Finite a) (Finite b) = Finite (a * b)"
  by (simp add: to_double_safe)



text \<open>
  The filters run to completion where search and category, if given, are strings and
  every stored description is a string, as in the seed data.
\<close>

lemma filteredProducts_total:
  assumes "q ''search'' = None \<or> (\<exists>s. q ''search'' = Some (QStr s))"
    and "q ''category'' = None \<or> (\<exists>c. q ''category'' = Some (QStr c))"
    and "\<forall>x\<in>set ps. \<exists>d. description x = JStr d"
  shows "\<exists>F. filteredProducts toLowerCase ps q = Some F"
proof -
  have sf: "\<exists>r. search_filter toLowerCase (QStr s) ps = Some r" for s
  proof -
    have "search_filter toLowerCase (QStr s) ps \<noteq> None"
      unfolding search_filter_None_iff
      using assms(3) by (auto simp: search_matches_def)
    then show ?thesis by blast
  qed
  have "\<exists>f1. (case q ''search'' of None \<Rightarrow> Some ps
            | Some search \<Rightarrow>
                if q_truthy search then search_filter toLowerCase search ps else Some ps) = Some f1"
  proof (cases "q ''search''")
    case None
    then show ?thesis by simp
  next
    case (Some v)
    with assms(1) obtain s where "v = QStr s" by auto
    with Some sf [of s] show ?thesis by (cases "s = []") auto
  qed
  then obtain f1 where f1: "(case q ''search'' of None \<Rightarrow> Some ps
            | Some search \<Rightarrow>
                if q_truthy search then search_filter toLowerCase search ps else Some ps) = Some f1"
    by blast
  have "\<exists>f2. (case q ''category'' of None \<Rightarrow> Some f1
            | Some category' \<Rightarrow>
                if q_truthy category' then category_filter toLowerCase category' f1
                else Some f1) = Some f2"
  proof (cases "q ''category''")
    case None
    then show ?thesis by simp
  next
    case (Some v)
    with assms(2) obtain c where "v = QStr c" by auto
    with Some show ?thesis by (cases "c = []") (auto simp: category_filter_def)
  qed
  then obtain f2 where f2: "(case q ''category'' of None \<Rightarrow> Some f1
            | Some category' \<Rightarrow>
                if q_truthy category' then category_filter toLowerCase category' f1
                else Some f1) = Some f2"
    by blast
  show ?thesis
    unfolding filteredProducts_def f1 using f2
    by (simp add: Let_def split: option.splits)
qed


lemma GET_products_eq:
  "GET_products toLowerCase ps q =
     (case filteredProducts toLowerCase ps q of
        None \<Rightarrow> Response 500 (Error ''Failed to retrieve products'')
      | Some F \<Rightarrow>
          Response 200
            (Listing (paginate F (or_default (parseInt (q ''page'')) (Finite 1))
                        (or_default (parseInt (q ''limit'')) (Finite 10)))))"
  by (simp add: GET_products_def json_ok_def Let_def split: option.splits)


text \<open>
  A no-break space before the digits is white space, and an integer a double cannot hold
  is rounded.
\<close>

lemma parseInt_edge_cases:
  "parseInt (Some (QStr (0xA0 # code_units ''2''))) = Finite 2"
  "parseInt (Some (QStr (code_units ''9007199254740993''))) = Finite 9007199254740992"
  "parseInt (Some (QArr [QStr (code_units ''2''), QStr (code_units ''3'')])) = Finite 2"
  by code_simp+




text \<open>
  Not part of C5 as amended, the requests on which a filter throws and the handler
  answers 500: a category given twice, on any store that is not empty; and, after a
  create whose description is the number 5, a search that the new product's name does
  not match.
\<close>

lemma GET_products_category_array:
  "GET_products toLowerCase products
     [''category'' \<mapsto> QArr [QStr (code_units ''a''), QStr (code_units ''b'')]] =
     Response 500 (Error ''Failed to retrieve products'')"
  by (simp add: GET_products_def filteredProducts_def category_filter_def products_def)

lemma POST_products_Odd:
  "POST_products ascii_toLowerCase products (code_units ''u1'') (Some ''Bearer secret-token'')
     [''name'' \<mapsto> JStr (code_units ''Mug''), ''price'' \<mapsto> JNum 5,
      ''category'' \<mapsto> JStr (code_units ''kitchen''), ''description'' \<mapsto> JNum 5] =
     (Response 201
        (Product \<lparr>pid = code_units ''u1'', name = code_units ''Mug'', description = JNum 5,
           price = 5, category = code_units ''kitchen'', inStock = JBool True\<rparr>),
      products @ [\<lparr>pid = code_units ''u1'', name = code_units ''Mug'', description = JNum 5,
           price = 5, category = code_units ''kitchen'', inStock = JBool True\<rparr>])"
proof -
  let ?b = "[''name'' \<mapsto> JStr (code_units ''Mug''), ''price'' \<mapsto> JNum 5,
             ''category'' \<mapsto> JStr (code_units ''kitchen''), ''description'' \<mapsto> JNum 5]"
  have "validateProduct ?b = None"
    by (simp add: validateProduct_def string_rejected_def price_rejected_def trim_def
        code_units_def is_whitespace_def)
  moreover have "(\<exists>p\<in>set products.
      ascii_toLowerCase (name p) = ascii_toLowerCase (code_units ''Mug'')) = False"
    by code_simp
  ultimately show ?thesis
    by (simp add: POST_products_def authMiddleware_Bearer validated_def create_handler_eq
        or_empty_def)
qed

lemma GET_products_search_throws:
  "reachable ascii_toLowerCase
     (products @ [\<lparr>pid = code_units ''u1'', name = code_units ''Mug'', description = JNum 5,
        price = 5, category = code_units ''kitchen'', inStock = JBool True\<rparr>]) \<and>
   GET_products ascii_toLowerCase
     (products @ [\<lparr>pid = code_units ''u1'', name = code_units ''Mug'', description = JNum 5,
        price = 5, category = code_units ''kitchen'', inStock = JBool True\<rparr>])
     [''search'' \<mapsto> QStr (code_units ''zzz'')] =
     Response 500 (Error ''Failed to retrieve products'')"
proof (intro conjI)
  let ?ps = "products @ [\<lparr>pid = code_units ''u1'', name = code_units ''Mug'',
     description = JNum 5, price = 5, category = code_units ''kitchen'',
     inStock = JBool True\<rparr>]"
  have "code_units ''u1'' \<notin> pid ` set products"
    by (simp add: products_def code_units_def)
  with reachable.seed [of ascii_toLowerCase] show "reachable ascii_toLowerCase ?ps"
    using POST_products_Odd by (rule reachable.create)
  have "search_matches ascii_toLowerCase (QStr (code_units ''zzz'')) (last ?ps) = None"
    by code_simp
  then have "\<exists>x\<in>set ?ps. search_matches ascii_toLowerCase (QStr (code_units ''zzz'')) x = None"
    by (intro bexI [of _ "last ?ps"]) simp_all
  then have "search_filter ascii_toLowerCase (QStr (code_units ''zzz'')) ?ps = None"
    by (simp only: search_filter_None_iff)
  moreover have "code_units ''zzz'' \<noteq> []"
    by (simp add: code_units_def)
  ultimately have "filteredProducts ascii_toLowerCase ?ps
      [''search'' \<mapsto> QStr (code_units ''zzz'')] = None"
    by (simp add: filteredProducts_def)
  then show "GET_products ascii_toLowerCase ?ps [''search'' \<mapsto> QStr (code_units ''zzz'')] =
      Response 500 (Error ''Failed to retrieve products'')"
    by (simp add: GET_products_eq)
qed

subsection \<open>Rounding\<close>
















lemma js_one_plus_one: "js_add (Finite 1) (Finite 1) = Finite 2"
  by (simp add: to_double_def)



subsection \<open>Page and limit that do not parse, or parse to 0\<close>












end
